theory Spec2Isabelle
  imports Complex_Main "HOL-Library.Multiset"
begin

section \<open>The atom set of the Frank-Wolfe optimiser (fw/atoms.hpp)\<close>

text \<open>
  The class \<open>Atoms\<close> keeps a matrix whose columns are the atoms and a vector of
  coefficients, one per atom. This theory embeds its five operations, \<open>AddAtom\<close>,
  \<open>RecoverVector\<close>, \<open>PruneSupport\<close>, \<open>ProjectedGradientEnhancement\<close> and the
  private \<open>ProjectionToL1\<close>.

  Numbers. The operations that move atoms and coefficients about (\<open>AddAtom\<close>,
  \<open>RecoverVector\<close>, \<open>PruneSupport\<close>, the loop of \<open>ProjectedGradientEnhancement\<close>)
  are embedded over \<^typ>\<open>real\<close>: what is proved of them is their control flow, the
  shapes of their data and what they copy or compare, for every objective and solver. \<open>ProjectionToL1\<close> is embedded twice.
  \<open>ProjectionToL1\<close> computes over \<^typ>\<open>real\<close> and stops at the division by
  \<open>rho = 0\<close> with the failure \<open>DivisionByZero\<close>: it marks that event and is the
  projection the loop of \<open>ProjectedGradientEnhancement\<close> calls. \<open>ProjectionToL1_binary64\<close>
  computes in the arithmetic of \<open>double\<close>, IEEE 754 binary64 with infinities and NaN,
  where a division by zero returns: it fixes the values the compiled function returns, and
  every statement about those values is made of it. The \<open>size_t\<close> loop counters are
  \<^typ>\<open>nat\<close>: each of them stays below a bound that is itself a \<open>size_t\<close>, so
  none of them wraps.
\<close>

subsection \<open>Failures\<close>

text \<open>
  What Armadillo reports by throwing (with its default bounds and size checks) and what
  C++ leaves undefined are values of \<open>error\<close>; a computation that can fail returns
  \<open>error + 'a\<close>, with \<open>Inl\<close> for the failure.
\<close>

datatype error =
    IncompatibleDimensions   \<comment> \<open>sizes of the operands of \<open>*\<close>, \<open>%\<close>, \<open>-\<close> do not agree\<close>
  | IndexOutOfBounds         \<comment> \<open>\<open>shed_col\<close>, \<open>shed_row\<close> past the end\<close>
  | NoElements               \<comment> \<open>\<open>min\<close> of a vector with no elements\<close>
  | SolveFailed              \<comment> \<open>\<open>solve\<close> found no solution\<close>
  | DivisionByZero           \<comment> \<open>division by \<open>rho = 0\<close>\<close>
  | UninitialisedIndex       \<comment> \<open>\<open>rho\<close> read before any assignment\<close>

subsection \<open>Vectors and matrices\<close>

text \<open>
  An \<open>arma::vec\<close> is the list of its entries. An \<open>arma::mat\<close> is its number of rows and
  the list of its columns; the number of rows is kept apart because a matrix with no column
  still has one (\<open>shed_col\<close> of the last column of a \<open>d \<times> 1\<close> matrix leaves \<open>d \<times> 0\<close>).
\<close>

type_synonym vec = "real list"

record mat =
  n_rows :: nat
  cols :: "vec list"

definition n_cols :: "mat \<Rightarrow> nat" where
  "n_cols M = length (cols M)"

text \<open>\<open>is_empty\<close>: the matrix has no element.\<close>

definition is_empty :: "mat \<Rightarrow> bool" where
  "is_empty M \<longleftrightarrow> n_rows M * n_cols M = 0"

text \<open>Every column has \<open>n_rows\<close> entries; true of every \<open>arma::mat\<close>.\<close>

definition wf_mat :: "mat \<Rightarrow> bool" where
  "wf_mat M \<longleftrightarrow> list_all (\<lambda>c. length c = n_rows M) (cols M)"

text \<open>The linear combination \<open>\<Sum>j. v j * column j\<close> of \<open>n\<close>-vectors.\<close>

fun lincomb :: "nat \<Rightarrow> vec list \<Rightarrow> vec \<Rightarrow> vec" where
  "lincomb n (c # cs) (a # as) = map2 (+) (map ((*) a) c) (lincomb n cs as)"
| "lincomb n _ _ = replicate n 0"

text \<open>\<open>M * v\<close>, a matrix times a column vector.\<close>

definition mat_vec :: "mat \<Rightarrow> vec \<Rightarrow> error + vec" where
  "mat_vec M v =
     (if n_cols M \<noteq> length v then Inl IncompatibleDimensions
      else Inr (lincomb (n_rows M) (cols M) v))"

text \<open>\<open>A * B\<close>, column by column.\<close>

definition mat_mat :: "mat \<Rightarrow> mat \<Rightarrow> error + mat" where
  "mat_mat A B =
     (if n_cols A \<noteq> n_rows B then Inl IncompatibleDimensions
      else Inr \<lparr>n_rows = n_rows A, cols = map (lincomb (n_rows A) (cols A)) (cols B)\<rparr>)"

definition dot :: "vec \<Rightarrow> vec \<Rightarrow> real" where
  "dot u v = sum_list (map2 (*) u v)"

text \<open>\<open>trans(g.t() * M)\<close>: the products of \<open>g\<close> with the columns of \<open>M\<close>.\<close>

definition vecT_mat :: "vec \<Rightarrow> mat \<Rightarrow> error + vec" where
  "vecT_mat g M =
     (if length g \<noteq> n_rows M then Inl IncompatibleDimensions
      else Inr (map (dot g) (cols M)))"

text \<open>\<open>M.t() * g\<close>: the products of the columns of \<open>M\<close> with \<open>g\<close>.\<close>

definition matT_vec :: "mat \<Rightarrow> vec \<Rightarrow> error + vec" where
  "matT_vec M g =
     (if n_rows M \<noteq> length g then Inl IncompatibleDimensions
      else Inr (map (\<lambda>c. dot c g) (cols M)))"

text \<open>\<open>u % v\<close> and \<open>u - v\<close>, entry by entry.\<close>

definition schur :: "vec \<Rightarrow> vec \<Rightarrow> error + vec" where
  "schur u v =
     (if length u \<noteq> length v then Inl IncompatibleDimensions else Inr (map2 (*) u v))"

definition vec_minus :: "vec \<Rightarrow> vec \<Rightarrow> error + vec" where
  "vec_minus u v =
     (if length u \<noteq> length v then Inl IncompatibleDimensions else Inr (map2 (-) u v))"

definition square :: "vec \<Rightarrow> vec" where
  "square v = map (\<lambda>x. x * x) v"

text \<open>\<open>sum(square(M), 0)\<close>: for each column, the sum of the squares of its entries.\<close>

definition sum_square_cols :: "mat \<Rightarrow> vec" where
  "sum_square_cols M = map (\<lambda>c. sum_list (square c)) (cols M)"

text \<open>\<open>accu\<close>, \<open>abs\<close>, \<open>cumsum\<close> and \<open>sort(., "descend")\<close>.\<close>

definition accu :: "vec \<Rightarrow> real" where
  "accu v = sum_list v"

definition abs_vec :: "vec \<Rightarrow> vec" where
  "abs_vec v = map abs v"

fun cumsum_from :: "real \<Rightarrow> vec \<Rightarrow> vec" where
  "cumsum_from a [] = []"
| "cumsum_from a (x # xs) = (a + x) # cumsum_from (a + x) xs"

definition cumsum :: "vec \<Rightarrow> vec" where
  "cumsum v = cumsum_from 0 v"

definition sort_descend :: "vec \<Rightarrow> vec" where
  "sort_descend v = rev (sort v)"

text \<open>\<open>v.min(ind)\<close>: the index of the first least entry; it throws on no entry.\<close>

fun index_min_from :: "nat \<Rightarrow> real \<Rightarrow> nat \<Rightarrow> vec \<Rightarrow> nat" where
  "index_min_from best m i [] = best"
| "index_min_from best m i (x # xs) =
     (if x < m then index_min_from i x (Suc i) xs else index_min_from best m (Suc i) xs)"

definition index_min :: "vec \<Rightarrow> error + nat" where
  "index_min v = (case v of [] \<Rightarrow> Inl NoElements | x # xs \<Rightarrow> Inr (index_min_from 0 x 1 xs))"

text \<open>\<open>shed_col\<close> and \<open>shed_row\<close> (of a column vector): remove one position.\<close>

definition shed :: "'a list \<Rightarrow> nat \<Rightarrow> 'a list" where
  "shed xs i = take i xs @ drop (Suc i) xs"

definition shed_col :: "mat \<Rightarrow> nat \<Rightarrow> error + mat" where
  "shed_col M i =
     (if i \<ge> n_cols M then Inl IndexOutOfBounds else Inr (M\<lparr>cols := shed (cols M) i\<rparr>))"

definition shed_row :: "vec \<Rightarrow> nat \<Rightarrow> error + vec" where
  "shed_row v i = (if i \<ge> length v then Inl IndexOutOfBounds else Inr (shed v i))"

subsection \<open>The state of an \<open>Atoms\<close> object\<close>

record Atoms =
  currentCoeffs :: vec
  currentAtoms :: mat

text \<open>The constructor \<open>Atoms()\<close>: both members are default-constructed, hence empty.\<close>

definition Atoms_new :: Atoms where
  "Atoms_new = \<lparr>currentCoeffs = [], currentAtoms = \<lparr>n_rows = 0, cols = []\<rparr>\<rparr>"

subsection \<open>\<open>ProjectionToL1\<close>\<close>

text \<open>
  The pivot search, the loop \<open>for (size_t j = 1; j <= simplexSol.n_rows; j++)\<close>. The
  variable \<open>rho\<close> is declared without a value, so it is an option here: \<open>None\<close> until the
  body has run once. The loop leaves by \<open>break\<close> at the first \<open>nu > 0\<close>, and otherwise
  after \<open>j = n_rows\<close>, with \<open>rho = 0\<close>.
\<close>

function pivot_scan :: "vec \<Rightarrow> vec \<Rightarrow> real \<Rightarrow> nat \<Rightarrow> nat option \<Rightarrow> nat option" where
  "pivot_scan simplexSol simplexSum tau j rho =
     (if j \<le> length simplexSol then
        (let rho' = length simplexSol - j;
             nu = simplexSol ! rho' - (simplexSum ! rho' - tau) / (real rho' + 1)
         in if nu > 0 then Some rho'
            else pivot_scan simplexSol simplexSum tau (Suc j) (Some rho'))
      else rho)"
  by pat_completeness auto
termination
  by (relation "measure (\<lambda>(simplexSol, simplexSum, tau, j, rho). Suc (length simplexSol) - j)") auto

declare pivot_scan.simps [simp del]

text \<open>\<open>double theta = (simplexSum(rho) - tau)/rho\<close>, the division guarded.\<close>

definition threshold_theta :: "vec \<Rightarrow> real \<Rightarrow> nat \<Rightarrow> error + real" where
  "threshold_theta simplexSum tau rho =
     (if rho = 0 then Inl DivisionByZero else Inr ((simplexSum ! rho - tau) / real rho))"

text \<open>The body of the thresholding loop, for one coefficient.\<close>

definition soft_threshold :: "real \<Rightarrow> real \<Rightarrow> real" where
  "soft_threshold theta c = (if c \<ge> 0 then max (c - theta) 0 else min (c + theta) 0)"

text \<open>The loop \<open>for (arma::uword j = 0; j < simplexSol.n_rows; j++)\<close>, in place.\<close>

function threshold_loop :: "real \<Rightarrow> nat \<Rightarrow> nat \<Rightarrow> vec \<Rightarrow> vec" where
  "threshold_loop theta n j coeffs =
     (if j < n then threshold_loop theta n (Suc j) (coeffs[j := soft_threshold theta (coeffs ! j)])
      else coeffs)"
  by pat_completeness auto
termination
  by (relation "measure (\<lambda>(theta, n, j, coeffs). n - j)") auto

declare threshold_loop.simps [simp del]

definition ProjectionToL1 :: "real \<Rightarrow> Atoms \<Rightarrow> error + Atoms" where
  "ProjectionToL1 tau s =
     (let simplexSol = abs_vec (currentCoeffs s) in
      if accu simplexSol \<le> tau then Inr s
      else
        let simplexSol = sort_descend simplexSol;
            simplexSum = cumsum simplexSol
        in case pivot_scan simplexSol simplexSum tau 1 None of
             None \<Rightarrow> Inl UninitialisedIndex
           | Some rho \<Rightarrow>
               (case threshold_theta simplexSum tau rho of
                  Inl e \<Rightarrow> Inl e
                | Inr theta \<Rightarrow>
                    Inr (s\<lparr>currentCoeffs :=
                          threshold_loop theta (length simplexSol) 0 (currentCoeffs s)\<rparr>)))"

subsection \<open>\<open>ProjectionToL1\<close> in the arithmetic of \<open>double\<close>\<close>

text \<open>
  The embedding \<open>ProjectionToL1\<close> above computes in exact arithmetic. What the compiled
  code returns is fixed by the arithmetic of \<open>double\<close>, IEEE 754 binary64 with
  rounding to nearest, ties to even; this subsection embeds the same source lines over it.

  A \<open>double\<close> is a finite number, an infinity or NaN. The finite ones are carried as
  the real number they denote; every finite result of an operation below is a value of
  \<open>round64\<close>, hence representable. The two zeros are one value here: they compare
  equal, and the only place where the sign of a zero can show, a division by it, divides
  by a converted \<open>size_t\<close>, which is never the negative zero.
\<close>

datatype double = Finite real | PlusInf | MinusInf | NaN

text \<open>The number of binary digits of a natural number.\<close>

fun bits :: "nat \<Rightarrow> nat" where
  "bits n = (if n = 0 then 0 else Suc (bits (n div 2)))"

declare bits.simps [simp del]

text \<open>
  \<open>ilog2 x\<close> is the integer \<open>k\<close> with \<open>2^k \<le> |x| < 2^(k+1)\<close>, for \<open>x\<close> other than 0:
  from the digits of the integer part of \<open>|x|\<close> when that is at least 1, and from those
  of its inverse otherwise.
\<close>

definition ilog2 :: "real \<Rightarrow> int" where
  "ilog2 x =
     (if 1 \<le> \<bar>x\<bar> then int (bits (nat \<lfloor>\<bar>x\<bar>\<rfloor>)) - 1
      else - int (bits (nat (\<lceil>1 / \<bar>x\<bar>\<rceil> - 1))))"

text \<open>The nearest integer, the even one of the two at a tie.\<close>

definition round_half_even :: "real \<Rightarrow> int" where
  "round_half_even q =
     (let f = \<lfloor>q\<rfloor>; d = q - of_int f
      in if d < 1 / 2 then f else if 1 / 2 < d then f + 1 else if even f then f else f + 1)"

text \<open>
  Rounding a real number to binary64: the result is a multiple of \<open>2^e\<close>, where \<open>e\<close>
  leaves 53 binary digits to the significand and is at least -1074 (the subnormal
  numbers); a result of magnitude \<open>2^1024\<close> or more is an infinity.
\<close>

definition round64 :: "real \<Rightarrow> double" where
  "round64 x =
     (if x = 0 then Finite 0
      else
        let e = max (ilog2 x - 52) (- 1074);
            y = of_int (round_half_even (x / 2 powi e)) * 2 powi e
        in if 2 ^ 1024 \<le> \<bar>y\<bar> then (if 0 < y then PlusInf else MinusInf) else Finite y)"

text \<open>The operations of C++ on \<open>double\<close> that the function uses.\<close>

fun neg64 :: "double \<Rightarrow> double" where
  "neg64 (Finite x) = Finite (- x)"
| "neg64 PlusInf = MinusInf"
| "neg64 MinusInf = PlusInf"
| "neg64 NaN = NaN"

fun abs64 :: "double \<Rightarrow> double" where
  "abs64 (Finite x) = Finite \<bar>x\<bar>"
| "abs64 PlusInf = PlusInf"
| "abs64 MinusInf = PlusInf"
| "abs64 NaN = NaN"

fun add64 :: "double \<Rightarrow> double \<Rightarrow> double" where
  "add64 (Finite x) (Finite y) = round64 (x + y)"
| "add64 NaN b = NaN"
| "add64 a NaN = NaN"
| "add64 PlusInf MinusInf = NaN"
| "add64 MinusInf PlusInf = NaN"
| "add64 PlusInf b = PlusInf"
| "add64 a PlusInf = PlusInf"
| "add64 MinusInf b = MinusInf"
| "add64 a MinusInf = MinusInf"

definition sub64 :: "double \<Rightarrow> double \<Rightarrow> double" where
  "sub64 a b = add64 a (neg64 b)"

text \<open>Division; a zero divisor is the positive zero.\<close>

fun div64 :: "double \<Rightarrow> double \<Rightarrow> double" where
  "div64 (Finite x) (Finite y) =
     (if y = 0 then (if x = 0 then NaN else if 0 < x then PlusInf else MinusInf)
      else round64 (x / y))"
| "div64 NaN b = NaN"
| "div64 a NaN = NaN"
| "div64 (Finite x) b = Finite 0"
| "div64 PlusInf (Finite y) = (if 0 \<le> y then PlusInf else MinusInf)"
| "div64 MinusInf (Finite y) = (if 0 \<le> y then MinusInf else PlusInf)"
| "div64 a b = NaN"

text \<open>\<open>a < b\<close> and \<open>a <= b\<close>; both are false when an operand is NaN.\<close>

fun lt64 :: "double \<Rightarrow> double \<Rightarrow> bool" where
  "lt64 (Finite x) (Finite y) \<longleftrightarrow> x < y"
| "lt64 NaN b \<longleftrightarrow> False"
| "lt64 a NaN \<longleftrightarrow> False"
| "lt64 a MinusInf \<longleftrightarrow> False"
| "lt64 PlusInf b \<longleftrightarrow> False"
| "lt64 a b \<longleftrightarrow> True"

fun le64 :: "double \<Rightarrow> double \<Rightarrow> bool" where
  "le64 (Finite x) (Finite y) \<longleftrightarrow> x \<le> y"
| "le64 NaN b \<longleftrightarrow> False"
| "le64 a NaN \<longleftrightarrow> False"
| "le64 MinusInf b \<longleftrightarrow> True"
| "le64 a PlusInf \<longleftrightarrow> True"
| "le64 a b \<longleftrightarrow> False"

text \<open>\<open>std::max(a, b)\<close> is \<open>(a < b) ? b : a\<close>, and \<open>std::min(a, b)\<close> is \<open>(b < a) ? b : a\<close>.\<close>

definition max64 :: "double \<Rightarrow> double \<Rightarrow> double" where
  "max64 a b = (if lt64 a b then b else a)"

definition min64 :: "double \<Rightarrow> double \<Rightarrow> double" where
  "min64 a b = (if lt64 b a then b else a)"

text \<open>The conversion of a \<open>size_t\<close> to \<open>double\<close>.\<close>

definition of_size :: "nat \<Rightarrow> double" where
  "of_size n = round64 (real n)"

text \<open>\<open>cumsum\<close> adds from the first entry on; \<open>sort\<close> orders by \<open><=\<close>.\<close>

fun cumsum64_from :: "double \<Rightarrow> double list \<Rightarrow> double list" where
  "cumsum64_from a [] = []"
| "cumsum64_from a (x # xs) = add64 a x # cumsum64_from (add64 a x) xs"

definition cumsum64 :: "double list \<Rightarrow> double list" where
  "cumsum64 v = cumsum64_from (Finite 0) v"

fun insort64 :: "double \<Rightarrow> double list \<Rightarrow> double list" where
  "insort64 x [] = [x]"
| "insort64 x (y # ys) = (if le64 x y then x # y # ys else y # insort64 x ys)"

definition sort_descend64 :: "double list \<Rightarrow> double list" where
  "sort_descend64 v = rev (foldr insort64 v [])"

text \<open>
  \<open>accu\<close> is Armadillo's, and the order in which it adds is the library's; the sum
  depends on it. It is a parameter of the projection. Two orders are given: one
  accumulator from the first entry on, and the two accumulators, one for the entries at
  even positions and one for those at odd positions, of Armadillo's loop.
\<close>

definition accu64_sequential :: "double list \<Rightarrow> double" where
  "accu64_sequential v = foldl add64 (Finite 0) v"

fun accu64_pairs :: "double \<Rightarrow> double \<Rightarrow> double list \<Rightarrow> double" where
  "accu64_pairs acc1 acc2 (x # y # zs) = accu64_pairs (add64 acc1 x) (add64 acc2 y) zs"
| "accu64_pairs acc1 acc2 [x] = add64 (add64 acc1 x) acc2"
| "accu64_pairs acc1 acc2 [] = add64 acc1 acc2"

definition accu64_two :: "double list \<Rightarrow> double" where
  "accu64_two v = accu64_pairs (Finite 0) (Finite 0) v"

text \<open>Line 178, \<open>nu = simplexSol(rho) - (simplexSum(rho) - tau)/(rho + 1)\<close>.\<close>

definition nu64 :: "double list \<Rightarrow> double list \<Rightarrow> double \<Rightarrow> nat \<Rightarrow> double" where
  "nu64 simplexSol simplexSum tau rho =
     sub64 (simplexSol ! rho) (div64 (sub64 (simplexSum ! rho) tau) (of_size (rho + 1)))"

text \<open>The pivot search of lines 175 to 181.\<close>

function pivot_scan64 ::
  "double list \<Rightarrow> double list \<Rightarrow> double \<Rightarrow> nat \<Rightarrow> nat option \<Rightarrow> nat option" where
  "pivot_scan64 simplexSol simplexSum tau j rho =
     (if j \<le> length simplexSol then
        (let rho' = length simplexSol - j;
             nu = nu64 simplexSol simplexSum tau rho'
         in if lt64 (Finite 0) nu then Some rho'
            else pivot_scan64 simplexSol simplexSum tau (Suc j) (Some rho'))
      else rho)"
  by pat_completeness auto
termination
  by (relation "measure (\<lambda>(simplexSol, simplexSum, tau, j, rho). Suc (length simplexSol) - j)") auto

declare pivot_scan64.simps [simp del]

text \<open>
  Line 182, \<open>theta = (simplexSum(rho) - tau)/rho\<close>. Nothing stops here at \<open>rho = 0\<close>: the
  quotient is then an infinity or NaN.
\<close>

definition theta64 :: "double list \<Rightarrow> double \<Rightarrow> nat \<Rightarrow> double" where
  "theta64 simplexSum tau rho = div64 (sub64 (simplexSum ! rho) tau) (of_size rho)"

text \<open>Lines 187 to 190, for one coefficient, and the loop over all of them.\<close>

definition soft_threshold64 :: "double \<Rightarrow> double \<Rightarrow> double" where
  "soft_threshold64 theta c =
     (if le64 (Finite 0) c then max64 (sub64 c theta) (Finite 0)
      else min64 (add64 c theta) (Finite 0))"

function threshold_loop64 :: "double \<Rightarrow> nat \<Rightarrow> nat \<Rightarrow> double list \<Rightarrow> double list" where
  "threshold_loop64 theta n j coeffs =
     (if j < n then
        threshold_loop64 theta n (Suc j) (coeffs[j := soft_threshold64 theta (coeffs ! j)])
      else coeffs)"
  by pat_completeness auto
termination
  by (relation "measure (\<lambda>(theta, n, j, coeffs). n - j)") auto

declare threshold_loop64.simps [simp del]

text \<open>
  The function reads and writes \<open>currentCoeffs\<close> only, so the state here is that vector.
  It fails in two places: \<open>sort\<close> refuses a vector with a NaN, and \<open>rho\<close> has no value
  when the vector is empty.
\<close>

datatype error64 = DetectedNaN | UninitialisedRho

definition ProjectionToL1_binary64 ::
  "(double list \<Rightarrow> double) \<Rightarrow> double \<Rightarrow> double list \<Rightarrow> error64 + double list" where
  "ProjectionToL1_binary64 accu64 tau coeffs =
     (let simplexSol = map abs64 coeffs in
      if le64 (accu64 simplexSol) tau then Inr coeffs
      else if NaN \<in> set simplexSol then Inl DetectedNaN
      else
        let simplexSol = sort_descend64 simplexSol;
            simplexSum = cumsum64 simplexSol
        in case pivot_scan64 simplexSol simplexSum tau 1 None of
             None \<Rightarrow> Inl UninitialisedRho
           | Some rho \<Rightarrow>
               Inr (threshold_loop64 (theta64 simplexSum tau rho) (length simplexSol) 0
                      coeffs))"

subsection \<open>\<open>AddAtom\<close> and \<open>RecoverVector\<close>\<close>

text \<open>
  \<open>M.insert_cols(col_num, C)\<close>: Armadillo refuses a position past the end and, unless
  one of the two matrices is \<open>0 \<times> 0\<close>, a different number of rows; it inserts nothing when
  \<open>C\<close> has no column. \<open>v.insert_rows(row_num, X)\<close> on column vectors likewise.
\<close>

definition insert_cols :: "mat \<Rightarrow> nat \<Rightarrow> mat \<Rightarrow> error + mat" where
  "insert_cols M col_num C =
     (if col_num > n_cols M then Inl IndexOutOfBounds
      else if n_rows C \<noteq> n_rows M \<and> (n_rows M > 0 \<or> n_cols M > 0) \<and> (n_rows C > 0 \<or> n_cols C > 0)
        then Inl IncompatibleDimensions
      else if n_cols C > 0
        then Inr \<lparr>n_rows = max (n_rows M) (n_rows C),
                  cols = take col_num (cols M) @ cols C @ drop col_num (cols M)\<rparr>
      else Inr M)"

definition insert_rows :: "vec \<Rightarrow> nat \<Rightarrow> vec \<Rightarrow> error + vec" where
  "insert_rows v row_num X =
     (if row_num > length v then Inl IndexOutOfBounds
      else Inr (take row_num v @ X @ drop row_num v))"

text \<open>
  \<open>AddAtom(v, c)\<close>. The parameter \<open>v\<close> is an \<open>arma::mat\<close>, so it is a matrix here; an
  atom is a matrix of one column. In the first branch \<open>CurrentCoeffs() = c\<close> assigns a
  scalar to a vector, which makes it the vector of that one entry.
\<close>

definition AddAtom :: "mat \<Rightarrow> real \<Rightarrow> Atoms \<Rightarrow> error + Atoms" where
  "AddAtom v c s =
     (if is_empty (currentAtoms s) then Inr (s\<lparr>currentAtoms := v, currentCoeffs := [c]\<rparr>)
      else
        case insert_cols (currentAtoms s) 0 v of Inl e \<Rightarrow> Inl e | Inr M \<Rightarrow>
        case insert_rows (currentCoeffs s) 0 [c] of Inl e \<Rightarrow> Inl e | Inr cs \<Rightarrow>
          Inr (s\<lparr>currentAtoms := M, currentCoeffs := cs\<rparr>))"

text \<open>\<open>RecoverVector(x)\<close>: the value assigned to \<open>x\<close>; the object is only read.\<close>

definition RecoverVector :: "Atoms \<Rightarrow> error + vec" where
  "RecoverVector s = mat_vec (currentAtoms s) (currentCoeffs s)"

subsection \<open>The objective\<close>

text \<open>
  The objective is a collaborator of the class: \<open>ProjectedGradientEnhancement\<close> is a
  template over any type with \<open>Evaluate\<close> and \<open>Gradient\<close>, and \<open>PruneSupport\<close> takes a
  \<open>FuncSq\<close>, which has \<open>MatrixA\<close> and \<open>Vectorb\<close> as well. Both are parameters of the
  model: a record of the member functions, which may fail like any other computation.
\<close>

record Objective =
  Evaluate :: "vec \<Rightarrow> error + real"
  Gradient :: "vec \<Rightarrow> error + vec"

record FuncSq = Objective +
  MatrixA :: mat
  Vectorb :: vec

text \<open>
  Armadillo's \<open>solve(A, b)\<close>, the least-squares solver of the refit, is a parameter too:
  any function from a matrix and a vector to a vector or a failure.
\<close>

type_synonym solver = "mat \<Rightarrow> vec \<Rightarrow> error + vec"

subsection \<open>\<open>PruneSupport\<close>\<close>

text \<open>
  What a run leaves behind: the object as it stands when control leaves the function,
  and the exception, if one ended the run. An exception does not undo the assignments
  made before it.
\<close>

record run =
  final :: Atoms
  raised :: "error option"

text \<open>
  A run of \<open>PruneSupport\<close> also reports the score list \<open>atomSqTerm\<close> as it stands at the
  end, and two observations that the source does not store: the trial matrices
  \<open>newAtoms\<close> that reached the refit of line 90, in order, and the number of trial
  deletions committed (lines 99 to 101).
\<close>

record prune_run = run +
  scores :: vec
  refits :: "mat list"
  commits :: nat

text \<open>Lines 69 to 71: the score \<open>0.5 * \<parallel>A * atom\<parallel>\<^sup>2 * coeff\<^sup>2\<close> of every atom.\<close>

definition atomSqTerm_init :: "'a FuncSq_scheme \<Rightarrow> Atoms \<Rightarrow> error + vec" where
  "atomSqTerm_init function s =
     (case mat_mat (MatrixA function) (currentAtoms s) of Inl e \<Rightarrow> Inl e | Inr atomSqTerm \<Rightarrow>
        schur (map ((*) 0.5) (sum_square_cols atomSqTerm)) (square (currentCoeffs s)))"

text \<open>Lines 76 to 88: the gradient, the gap of every atom, the atom to delete, the trial matrix.\<close>

definition PruneCandidate :: "'a FuncSq_scheme \<Rightarrow> Atoms \<Rightarrow> vec \<Rightarrow> error + (nat \<times> mat)" where
  "PruneCandidate function s atomSqTerm =
     (case RecoverVector s of Inl e \<Rightarrow> Inl e | Inr x \<Rightarrow>
      case Gradient function x of Inl e \<Rightarrow> Inl e | Inr gradient \<Rightarrow>
      case vecT_mat gradient (currentAtoms s) of Inl e \<Rightarrow> Inl e | Inr gtA \<Rightarrow>
      case schur (currentCoeffs s) gtA of Inl e \<Rightarrow> Inl e | Inr cg \<Rightarrow>
      case vec_minus atomSqTerm cg of Inl e \<Rightarrow> Inl e | Inr gap \<Rightarrow>
      case index_min gap of Inl e \<Rightarrow> Inl e | Inr ind \<Rightarrow>
      case shed_col (currentAtoms s) ind of Inl e \<Rightarrow> Inl e | Inr newAtoms \<Rightarrow>
        Inr (ind, newAtoms))"

text \<open>Lines 90 to 92: the refit of the coefficients and the objective of the trial.\<close>

definition PruneRefit :: "'a FuncSq_scheme \<Rightarrow> solver \<Rightarrow> mat \<Rightarrow> error + (vec \<times> real)" where
  "PruneRefit function solve newAtoms =
     (case mat_mat (MatrixA function) newAtoms of Inl e \<Rightarrow> Inl e | Inr AnewAtoms \<Rightarrow>
      case solve AnewAtoms (Vectorb function) of Inl e \<Rightarrow> Inl e | Inr newCoeffs \<Rightarrow>
      case mat_vec newAtoms newCoeffs of Inl e \<Rightarrow> Inl e | Inr xnew \<Rightarrow>
      case Evaluate function xnew of Inl e \<Rightarrow> Inl e | Inr Fnew \<Rightarrow>
        Inr (newCoeffs, Fnew))"

text \<open>
  The loop \<open>while (true)\<close>. It has no bound of its own; every pass that does not leave
  it removes a column, which is why it ends.
\<close>

function PruneLoop :: "real \<Rightarrow> 'a FuncSq_scheme \<Rightarrow> solver \<Rightarrow> Atoms \<Rightarrow> vec \<Rightarrow> prune_run" where
  "PruneLoop F function solve s atomSqTerm =
     (case PruneCandidate function s atomSqTerm of
        Inl e \<Rightarrow> \<lparr>final = s, raised = Some e, scores = atomSqTerm, refits = [], commits = 0\<rparr>
      | Inr (ind, newAtoms) \<Rightarrow>
          (case PruneRefit function solve newAtoms of
             Inl e \<Rightarrow>
               \<lparr>final = s, raised = Some e, scores = atomSqTerm, refits = [newAtoms], commits = 0\<rparr>
           | Inr (newCoeffs, Fnew) \<Rightarrow>
               if Fnew > F then
                 \<lparr>final = s, raised = None, scores = atomSqTerm, refits = [newAtoms], commits = 0\<rparr>
               else
                 let s' = s\<lparr>currentAtoms := newAtoms, currentCoeffs := newCoeffs\<rparr> in
                 (case shed_row atomSqTerm ind of
                    Inl e \<Rightarrow>
                      \<lparr>final = s', raised = Some e, scores = atomSqTerm,
                       refits = [newAtoms], commits = 1\<rparr>
                  | Inr atomSqTerm' \<Rightarrow>
                      let r = PruneLoop F function solve s' atomSqTerm'
                      in r\<lparr>refits := newAtoms # refits r, commits := Suc (commits r)\<rparr>)))"
  by pat_completeness auto
termination
  by (relation "measure (\<lambda>(F, function, solve, s, atomSqTerm). n_cols (currentAtoms s))")
     (auto simp: PruneCandidate_def shed_col_def shed_def n_cols_def split: sum.splits if_splits)

declare PruneLoop.simps [simp del]

definition PruneSupport :: "real \<Rightarrow> 'a FuncSq_scheme \<Rightarrow> solver \<Rightarrow> Atoms \<Rightarrow> prune_run" where
  "PruneSupport F function solve s =
     (case atomSqTerm_init function s of
        Inl e \<Rightarrow> \<lparr>final = s, raised = Some e, scores = [], refits = [], commits = 0\<rparr>
      | Inr atomSqTerm \<Rightarrow> PruneLoop F function solve s atomSqTerm)"

subsection \<open>\<open>ProjectedGradientEnhancement\<close>\<close>

text \<open>A run also reports how many times the body of the \<open>for\<close> loop was entered.\<close>

record pge_run = run +
  steps :: nat

text \<open>
  The body of the \<open>for\<close> loop up to the convergence test: the gradient step on the
  coefficients, the projection, the new \<open>x\<close> and its objective \<open>valueNew\<close>. A failure
  comes with the object as it stands at that point.
\<close>

definition PGE_body ::
  "'a Objective_scheme \<Rightarrow> real \<Rightarrow> real \<Rightarrow> Atoms \<Rightarrow> vec \<Rightarrow> (error \<times> Atoms) + (Atoms \<times> vec \<times> real)" where
  "PGE_body function tau stepSize s x =
     (case Gradient function x of Inl e \<Rightarrow> Inl (e, s) | Inr g \<Rightarrow>
      case matT_vec (currentAtoms s) g of Inl e \<Rightarrow> Inl (e, s) | Inr g \<Rightarrow>
      case vec_minus (currentCoeffs s) (map ((*) stepSize) g) of Inl e \<Rightarrow> Inl (e, s) | Inr coeffs \<Rightarrow>
      let s1 = s\<lparr>currentCoeffs := coeffs\<rparr> in
      case ProjectionToL1 tau s1 of Inl e \<Rightarrow> Inl (e, s1) | Inr s2 \<Rightarrow>
      case RecoverVector s2 of Inl e \<Rightarrow> Inl (e, s2) | Inr x' \<Rightarrow>
      case Evaluate function x' of Inl e \<Rightarrow> Inl (e, s2) | Inr valueNew \<Rightarrow>
        Inr (s2, x', valueNew))"

text \<open>
  The loop \<open>for (size_t iter = 1; iter < maxIteration; iter++)\<close>, from the current
  \<open>iter\<close>, \<open>x\<close> and \<open>value\<close>.
\<close>

function PGE_loop ::
  "'a Objective_scheme \<Rightarrow> real \<Rightarrow> real \<Rightarrow> nat \<Rightarrow> real \<Rightarrow> nat \<Rightarrow> Atoms \<Rightarrow> vec \<Rightarrow> real \<Rightarrow> pge_run" where
  "PGE_loop function tau stepSize maxIteration tolerance iter s x value =
     (if iter < maxIteration then
        case PGE_body function tau stepSize s x of
          Inl (e, s') \<Rightarrow> \<lparr>final = s', raised = Some e, steps = 1\<rparr>
        | Inr (s2, x', valueNew) \<Rightarrow>
            if value - valueNew < tolerance then \<lparr>final = s2, raised = None, steps = 1\<rparr>
            else
              let r = PGE_loop function tau stepSize maxIteration tolerance (Suc iter) s2 x' valueNew
              in r\<lparr>steps := Suc (steps r)\<rparr>
      else \<lparr>final = s, raised = None, steps = 0\<rparr>)"
  by pat_completeness auto
termination
  by (relation "measure (\<lambda>(function, tau, stepSize, maxIteration, tolerance, iter, s, x, value).
        maxIteration - iter)") auto

declare PGE_loop.simps [simp del]

definition ProjectedGradientEnhancement ::
  "'a Objective_scheme \<Rightarrow> real \<Rightarrow> real \<Rightarrow> nat \<Rightarrow> real \<Rightarrow> Atoms \<Rightarrow> pge_run" where
  "ProjectedGradientEnhancement function tau stepSize maxIteration tolerance s =
     (case RecoverVector s of
        Inl e \<Rightarrow> \<lparr>final = s, raised = Some e, steps = 0\<rparr> | Inr x \<Rightarrow>
      case Evaluate function x of
        Inl e \<Rightarrow> \<lparr>final = s, raised = Some e, steps = 0\<rparr> | Inr value \<Rightarrow>
      PGE_loop function tau stepSize maxIteration tolerance 1 s x value)"

subsection \<open>A least-squares objective and a solver to run the model on\<close>

text \<open>
  Modelled from the spec: \<open>func_sq.hpp\<close>, the class \<open>FuncSq\<close>, is not among the
  sources. The spec gives its objective as \<open>f(x) = 0.5 * \<parallel>A x - b\<parallel>\<^sup>2\<close>, whose gradient
  is \<open>A\<^sup>T (A x - b)\<close>. No theorem about the class \<open>Atoms\<close> depends on this
  definition: they hold for every objective. It is the objective of the examples.
\<close>

definition residual :: "mat \<Rightarrow> vec \<Rightarrow> vec \<Rightarrow> error + vec" where
  "residual A b x = (case mat_vec A x of Inl e \<Rightarrow> Inl e | Inr Ax \<Rightarrow> vec_minus Ax b)"

definition LeastSquares :: "mat \<Rightarrow> vec \<Rightarrow> FuncSq" where
  "LeastSquares A b =
     \<lparr>Evaluate = (\<lambda>x. case residual A b x of Inl e \<Rightarrow> Inl e
                        | Inr r \<Rightarrow> Inr (0.5 * sum_list (square r))),
      Gradient = (\<lambda>x. case residual A b x of Inl e \<Rightarrow> Inl e | Inr r \<Rightarrow> matT_vec A r),
      MatrixA = A, Vectorb = b\<rparr>"

text \<open>
  A solver for the examples: the least-squares solution for a matrix of one column \<open>a\<close>,
  which is \<open>(a \<cdot> b) / (a \<cdot> a)\<close>, and the empty solution for a matrix of no column; it
  reports no solution otherwise.
\<close>

definition solve_small :: solver where
  "solve_small M b =
     (if n_rows M \<noteq> length b then Inl IncompatibleDimensions
      else case cols M of
          [] \<Rightarrow> Inr []
        | [a] \<Rightarrow> (if dot a a = 0 then Inl SolveFailed else Inr [dot a b / dot a a])
        | _ \<Rightarrow> Inl SolveFailed)"

subsection \<open>Notions the properties are stated with\<close>

text \<open>The invariant of the data model: one coefficient per atom.\<close>

definition coeffs_match :: "Atoms \<Rightarrow> bool" where
  "coeffs_match s \<longleftrightarrow> length (currentCoeffs s) = n_cols (currentAtoms s)"

text \<open>The quantity \<open>nu\<close> that the pivot search tests at position \<open>rho\<close>.\<close>

definition simplex_nu :: "vec \<Rightarrow> vec \<Rightarrow> real \<Rightarrow> nat \<Rightarrow> real" where
  "simplex_nu simplexSol simplexSum tau rho =
     simplexSol ! rho - (simplexSum ! rho - tau) / (real rho + 1)"

text \<open>The state recovers to a point whose objective is at most \<open>F\<close>.\<close>

definition within_threshold :: "'a Objective_scheme \<Rightarrow> real \<Rightarrow> Atoms \<Rightarrow> bool" where
  "within_threshold function F s =
     (case RecoverVector s of Inl e \<Rightarrow> False | Inr x \<Rightarrow>
      case Evaluate function x of Inl e \<Rightarrow> False | Inr v \<Rightarrow> v \<le> F)"

text \<open>
  What every run of the loop of \<open>PruneSupport\<close> satisfies, from the state \<open>s\<close> it starts
  in: each commit removes one column; the \<open>i\<close>-th refit (from 0) is against a trial matrix
  of \<open>i + 1\<close> columns fewer than \<open>s\<close> has; a run that returns normally ends on a
  rejected trial, so an atom is left; and a state reached by a commit recovers to a point
  within the threshold, with one coefficient per atom.
\<close>

definition prune_facts :: "real \<Rightarrow> 'a FuncSq_scheme \<Rightarrow> Atoms \<Rightarrow> prune_run \<Rightarrow> bool" where
  "prune_facts F fn s r \<longleftrightarrow>
     n_cols (currentAtoms (final r)) + commits r = n_cols (currentAtoms s)
   \<and> (\<forall>i < length (refits r). Suc (n_cols (refits r ! i) + i) = n_cols (currentAtoms s))
   \<and> (raised r = None \<longrightarrow> 0 < n_cols (currentAtoms (final r)))
   \<and> (if commits r = 0 then final r = s
      else within_threshold fn F (final r) \<and> coeffs_match (final r))"

subsection \<open>Data of the examples\<close>

text \<open>
  The objective \<open>0.5 * (x - 1)\<^sup>2\<close> of one variable, an atom set of the single atom \<open>(1)\<close>
  with coefficient 2, an atom set of the atom \<open>(1)\<close> twice with coefficients 0.5 and 0.5,
  the \<open>1 \<times> 0\<close> and \<open>1 \<times> 1\<close> atom matrices, and the atom set of no atom that
  \<open>PruneSupport\<close> can leave behind.
\<close>

definition ex_objective :: FuncSq where
  "ex_objective = LeastSquares \<lparr>n_rows = 1, cols = [[1]]\<rparr> [1]"

definition ex_one :: Atoms where
  "ex_one = \<lparr>currentCoeffs = [2], currentAtoms = \<lparr>n_rows = 1, cols = [[1]]\<rparr>\<rparr>"

definition ex_two :: Atoms where
  "ex_two = \<lparr>currentCoeffs = [0.5, 0.5], currentAtoms = \<lparr>n_rows = 1, cols = [[1], [1]]\<rparr>\<rparr>"

definition ex_no_atom :: mat where
  "ex_no_atom = \<lparr>n_rows = 1, cols = []\<rparr>"

definition ex_an_atom :: mat where
  "ex_an_atom = \<lparr>n_rows = 1, cols = [[1]]\<rparr>"

definition ex_none :: Atoms where
  "ex_none = \<lparr>currentCoeffs = [], currentAtoms = ex_no_atom\<rparr>"

text \<open>A solver that finds no solution.\<close>

definition solve_never :: solver where
  "solve_never M b = Inl SolveFailed"

text \<open>
  For the projection: the doubles nearest to 0.7, 0.5 and -0.9; the vector of eight
  entries \<open>2^-54\<close> and a one, with what one and two projections at radius
  \<open>1 + 2^-52\<close> make of it; and a vector on which no operation rounds.
\<close>

definition ex_coeffs64 :: "double list" where
  "ex_coeffs64 = [round64 0.7, round64 0.5, round64 (- 0.9)]"

definition ex_tiny_values :: "real list" where
  "ex_tiny_values =
     [1 / 2 ^ 54, 1 / 2 ^ 54, 1 / 2 ^ 54, 1 / 2 ^ 54, 1 / 2 ^ 54, 1 / 2 ^ 54, 1 / 2 ^ 54,
      1 / 2 ^ 54, 1]"

definition ex_tiny :: "double list" where
  "ex_tiny = map Finite ex_tiny_values"



definition ex_dyadic :: "real list" where
  "ex_dyadic = [3 / 4, 1 / 2, - 1]"

section \<open>Properties\<close>

subsection \<open>Facts about the projection\<close>

lemma threshold_loop_eq:
  "n = length cs \<Longrightarrow> j \<le> length cs \<Longrightarrow>
   threshold_loop theta n j cs = take j cs @ map (soft_threshold theta) (drop j cs)"
proof (induction "length cs - j" arbitrary: j cs)
  case 0
  then show ?case by (simp add: threshold_loop.simps)
next
  case (Suc k)
  then have lt: "j < length cs" by simp
  let ?cs = "cs[j := soft_threshold theta (cs ! j)]"
  have "threshold_loop theta n j cs = threshold_loop theta n (Suc j) ?cs"
    using lt Suc.prems by (subst threshold_loop.simps) simp
  also have "\<dots> = take (Suc j) ?cs @ map (soft_threshold theta) (drop (Suc j) ?cs)"
    using Suc.hyps(2) lt Suc.prems by (intro Suc.hyps(1)) simp_all
  also have "\<dots> = take j cs @ map (soft_threshold theta) (drop j cs)"
    using lt by (simp add: take_Suc_conv_app_nth Cons_nth_drop_Suc [symmetric])
  finally show ?case .
qed

lemma threshold_loop_map:
  "threshold_loop theta (length cs) 0 cs = map (soft_threshold theta) cs"
  by (simp add: threshold_loop_eq)

lemma cumsum_from_length: "length (cumsum_from a xs) = length xs"
  by (induction xs arbitrary: a) simp_all

lemma cumsum_from_nth:
  "i < length xs \<Longrightarrow> cumsum_from a xs ! i = a + sum_list (take (Suc i) xs)"
proof (induction xs arbitrary: a i)
  case Nil
  then show ?case by simp
next
  case (Cons x xs)
  then show ?case by (cases i) simp_all
qed

lemma cumsum_nth: "i < length xs \<Longrightarrow> cumsum xs ! i = sum_list (take (Suc i) xs)"
  by (simp add: cumsum_def cumsum_from_nth)

lemma sort_descend_length: "length (sort_descend v) = length v"
  by (simp add: sort_descend_def)

lemma sort_descend_mset: "mset (sort_descend v) = mset v"
  by (simp add: sort_descend_def)

lemma sort_descend_nth:
  "i \<le> j \<Longrightarrow> j < length v \<Longrightarrow> sort_descend v ! j \<le> sort_descend v ! i"
proof -
  assume ij: "i \<le> j" and j: "j < length v"
  have "sorted_wrt (\<lambda>x y. y \<le> x) (rev (sort v))"
    by (simp add: sorted_wrt_rev)
  then show ?thesis
    using ij j by (cases "i = j") (auto simp: sort_descend_def sorted_wrt_iff_nth_less)
qed

lemma sum_list_sort_descend:
  fixes f :: "real \<Rightarrow> real"
  shows "sum_list (map f (sort_descend v)) = sum_list (map f v)"
proof -
  have "sum_mset (image_mset f (mset (sort_descend v))) = sum_mset (image_mset f (mset v))"
    by (simp add: sort_descend_mset)
  then show ?thesis
    by (simp add: sum_mset_sum_list [symmetric] del: sum_mset_sum_list)
qed

lemma pivot_scan_break:
  "pivot_scan sol cum tau j r = Some p \<Longrightarrow> 0 < p \<Longrightarrow> 0 < j \<Longrightarrow>
   r = None \<or> r = Some (Suc (length sol) - j) \<Longrightarrow>
   p < length sol \<and> p \<le> length sol - j \<and> simplex_nu sol cum tau p > 0 \<and>
   (\<forall>i. p < i \<and> i \<le> length sol - j \<longrightarrow> simplex_nu sol cum tau i \<le> 0)"
proof (induction sol cum tau j r rule: pivot_scan.induct)
  case (1 simplexSol simplexSum tau j rho)
  show ?case
  proof (cases "j \<le> length simplexSol")
    case False
    with "1.prems" show ?thesis
      by (subst (asm) pivot_scan.simps) auto
  next
    case True
    let ?rho = "length simplexSol - j"
    show ?thesis
    proof (cases "simplex_nu simplexSol simplexSum tau ?rho > 0")
      case t: True
      with True "1.prems" have "p = ?rho"
        by (subst (asm) pivot_scan.simps) (simp add: simplex_nu_def Let_def)
      with t True "1.prems" show ?thesis by auto
    next
      case f: False
      with True "1.prems" have rec: "pivot_scan simplexSol simplexSum tau (Suc j) (Some ?rho) = Some p"
        by (subst (asm) pivot_scan.simps) (simp add: simplex_nu_def Let_def)
      have "p < length simplexSol \<and> p \<le> length simplexSol - Suc j \<and>
            simplex_nu simplexSol simplexSum tau p > 0 \<and>
            (\<forall>i. p < i \<and> i \<le> length simplexSol - Suc j \<longrightarrow> simplex_nu simplexSol simplexSum tau i \<le> 0)"
        using True f rec "1.prems"
        by (intro "1.IH" [of ?rho "simplex_nu simplexSol simplexSum tau ?rho"])
           (auto simp: simplex_nu_def)
      moreover have "simplex_nu simplexSol simplexSum tau i \<le> 0"
        if "i \<le> length simplexSol - j" "\<not> i \<le> length simplexSol - Suc j" for i
      proof -
        from that have "i = length simplexSol - j" by arith
        with f show ?thesis by simp
      qed
      ultimately show ?thesis
        by (metis diff_le_mono2 le_SucI le_trans order_refl)
    qed
  qed
qed

lemma simplex_feasible:
  fixes s :: "real list"
  assumes desc: "\<And>i j. i \<le> j \<Longrightarrow> j < length s \<Longrightarrow> s ! j \<le> s ! i"
    and nonneg: "\<And>x. x \<in> set s \<Longrightarrow> 0 \<le> x"
    and rho: "rho < length s" "0 < rho"
    and nu: "s ! rho - (sum_list (take (Suc rho) s) - tau) / (real rho + 1) > 0"
    and rest: "\<And>i. rho < i \<Longrightarrow> i < length s \<Longrightarrow>
                 s ! i - (sum_list (take (Suc i) s) - tau) / (real i + 1) \<le> 0"
    and infeasible: "tau < sum_list s"
  defines "c \<equiv> sum_list (take (Suc rho) s) - tau"
  shows "c / (real rho + 1) \<le> c / real rho"
    and "sum_list (map (\<lambda>x. max (x - c / real rho) 0) s) \<le> tau"
proof -
  have next_le: "(real rho + 1) * s ! Suc rho \<le> c" if lt: "Suc rho < length s"
  proof -
    have "s ! Suc rho - (sum_list (take (Suc (Suc rho)) s) - tau) / (real (Suc rho) + 1) \<le> 0"
      using rest [of "Suc rho"] lt by simp
    then have "s ! Suc rho * (real (Suc rho) + 1) \<le> sum_list (take (Suc (Suc rho)) s) - tau"
      by (simp add: pos_le_divide_eq)
    moreover have "sum_list (take (Suc (Suc rho)) s) = sum_list (take (Suc rho) s) + s ! Suc rho"
      using lt by (simp add: take_Suc_conv_app_nth [of "Suc rho"])
    ultimately show ?thesis by (simp add: c_def algebra_simps)
  qed
  have c_nonneg: "0 \<le> c"
  proof (cases "Suc rho < length s")
    case True
    have "0 \<le> s ! Suc rho" using True nonneg by simp
    then have "0 \<le> (real rho + 1) * s ! Suc rho" by simp
    with next_le [OF True] show ?thesis by linarith
  next
    case False
    with rho have "take (Suc rho) s = s" by simp
    with infeasible show ?thesis by (simp add: c_def)
  qed
  show std: "c / (real rho + 1) \<le> c / real rho"
    using c_nonneg rho by (intro divide_left_mono) simp_all
  have tail: "x \<le> c / real rho" if "x \<in> set (drop (Suc rho) s)" for x
  proof -
    from that obtain i where i: "i < length (drop (Suc rho) s)" "x = drop (Suc rho) s ! i"
      by (auto simp: in_set_conv_nth)
    then have lt: "Suc rho + i < length s" and x: "x = s ! (Suc rho + i)" by simp_all
    then have lt': "Suc rho < length s" by simp
    have "x \<le> s ! Suc rho" unfolding x using desc [of "Suc rho" "Suc rho + i"] lt by simp
    moreover have "s ! Suc rho \<le> c / (real rho + 1)"
      using next_le [OF lt'] by (simp add: pos_le_divide_eq mult.commute)
    ultimately show ?thesis using std by linarith
  qed
  have head: "c / (real rho + 1) < x" if "x \<in> set (take (Suc rho) s)" for x
  proof -
    from that obtain i where i: "i < length (take (Suc rho) s)" "x = take (Suc rho) s ! i"
      by (auto simp: in_set_conv_nth)
    then have "i \<le> rho" and x: "x = s ! i" by simp_all
    then have "s ! rho \<le> x" using desc [of i rho] rho by simp
    with nu show ?thesis unfolding c_def by linarith
  qed
  let ?f = "\<lambda>x. max (x - c / real rho) 0"
  have "sum_list (map ?f s) =
        sum_list (map ?f (take (Suc rho) s)) + sum_list (map ?f (drop (Suc rho) s))"
    by (metis append_take_drop_id map_append sum_list_append)
  moreover have "sum_list (map ?f (drop (Suc rho) s)) = 0"
  proof -
    have "sum_list (map ?f (drop (Suc rho) s)) = sum_list (map (\<lambda>x. 0::real) (drop (Suc rho) s))"
      using tail by (intro arg_cong [where f = sum_list] map_cong) (auto simp: max_def)
    then show ?thesis by simp
  qed
  moreover have "sum_list (map ?f (take (Suc rho) s))
                 \<le> sum_list (map (\<lambda>x. x - c / (real rho + 1)) (take (Suc rho) s))"
  proof (rule sum_list_mono)
    fix x assume "x \<in> set (take (Suc rho) s)"
    from head [OF this] std show "?f x \<le> x - c / (real rho + 1)" by (simp add: max_def)
  qed
  moreover have "sum_list (map (\<lambda>x. x - c / (real rho + 1)) (take (Suc rho) s)) = tau"
  proof -
    have "sum_list (map (\<lambda>x. x - c / (real rho + 1)) (take (Suc rho) s))
          = sum_list (take (Suc rho) s) - real (length (take (Suc rho) s)) * (c / (real rho + 1))"
      by (simp add: sum_list_subtractf sum_list_triv)
    also have "length (take (Suc rho) s) = Suc rho" using rho by simp
    also have "real (Suc rho) * (c / (real rho + 1)) = c"
    proof -
      have "real rho + 1 \<noteq> 0" using of_nat_0_le_iff [of rho, where 'a = real] by linarith
      then have "(real rho + 1) * (c / (real rho + 1)) = c" by simp
      moreover have "real (Suc rho) = real rho + 1" by simp
      ultimately show ?thesis by (simp only:)
    qed
    finally show ?thesis by (simp add: c_def)
  qed
  ultimately show "sum_list (map ?f s) \<le> tau" by linarith
qed

lemma abs_soft_threshold: "\<bar>soft_threshold theta c\<bar> = max (\<bar>c\<bar> - theta) 0"
  by (simp add: soft_threshold_def max_def min_def abs_if)


lemma ProjectionToL1_feasible_id:
  "accu (abs_vec (currentCoeffs s)) \<le> tau \<Longrightarrow> ProjectionToL1 tau s = Inr s"
  by (simp add: ProjectionToL1_def)

lemma ProjectionToL1_rho:
  assumes "tau < accu (abs_vec (currentCoeffs s))"
    and "pivot_scan (sort_descend (abs_vec (currentCoeffs s)))
           (cumsum (sort_descend (abs_vec (currentCoeffs s)))) tau 1 None = Some rho"
  shows "ProjectionToL1 tau s =
    (if rho = 0 then Inl DivisionByZero
     else Inr (s\<lparr>currentCoeffs :=
       map (soft_threshold ((cumsum (sort_descend (abs_vec (currentCoeffs s))) ! rho - tau) / real rho))
           (currentCoeffs s)\<rparr>))"
proof -
  have "length (sort_descend (abs_vec (currentCoeffs s))) = length (currentCoeffs s)"
    by (simp add: sort_descend_length abs_vec_def)
  with assms show ?thesis
    by (simp add: ProjectionToL1_def Let_def threshold_theta_def threshold_loop_map)
qed

lemma theta_feasible:
  fixes coeffs :: vec
  defines "sol \<equiv> sort_descend (abs_vec coeffs)"
  assumes inf: "tau < accu (abs_vec coeffs)"
    and piv: "pivot_scan sol (cumsum sol) tau 1 None = Some rho"
    and pos: "0 < rho"
  shows "(cumsum sol ! rho - tau) / (real rho + 1) \<le> (cumsum sol ! rho - tau) / real rho"
    and "accu (abs_vec (map (soft_threshold ((cumsum sol ! rho - tau) / real rho)) coeffs)) \<le> tau"
proof -
  let ?theta = "(cumsum sol ! rho - tau) / real rho"
  from pivot_scan_break [OF piv pos] have
    rho: "rho < length sol" and nu: "simplex_nu sol (cumsum sol) tau rho > 0" and
    rest: "\<And>i. rho < i \<Longrightarrow> i \<le> length sol - 1 \<Longrightarrow> simplex_nu sol (cumsum sol) tau i \<le> 0"
    by auto
  have desc: "sol ! j \<le> sol ! i" if "i \<le> j" "j < length sol" for i j
    using that sort_descend_nth [of i j "abs_vec coeffs"] by (simp add: sol_def sort_descend_length)
  have nonneg: "0 \<le> x" if "x \<in> set sol" for x
  proof -
    from that have "x \<in># mset sol" by simp
    then have "x \<in> set (abs_vec coeffs)" by (simp add: sol_def sort_descend_mset)
    then show ?thesis by (auto simp: abs_vec_def)
  qed
  have nu': "sol ! rho - (sum_list (take (Suc rho) sol) - tau) / (real rho + 1) > 0"
    using nu rho by (simp add: simplex_nu_def cumsum_nth)
  have rest': "sol ! i - (sum_list (take (Suc i) sol) - tau) / (real i + 1) \<le> 0"
    if "rho < i" "i < length sol" for i
    using rest [of i] that by (simp add: simplex_nu_def cumsum_nth)
  have inf': "tau < sum_list sol"
    using inf sum_list_sort_descend [of "\<lambda>x. x" "abs_vec coeffs"] by (simp add: accu_def sol_def)
  have cum: "cumsum sol ! rho = sum_list (take (Suc rho) sol)"
    using rho by (simp add: cumsum_nth)
  show "(cumsum sol ! rho - tau) / (real rho + 1) \<le> ?theta"
    unfolding cum using desc nonneg rho pos nu' rest' inf' by (rule simplex_feasible(1))
  have "accu (abs_vec (map (soft_threshold ?theta) coeffs))
        = sum_list (map (\<lambda>x. max (x - ?theta) 0) (abs_vec coeffs))"
    by (simp add: accu_def abs_vec_def comp_def abs_soft_threshold)
  also have "\<dots> = sum_list (map (\<lambda>x. max (x - ?theta) 0) sol)"
    by (simp add: sol_def sum_list_sort_descend)
  also have "\<dots> \<le> tau"
    unfolding cum using desc nonneg rho pos nu' rest' inf' by (rule simplex_feasible(2))
  finally show "accu (abs_vec (map (soft_threshold ?theta) coeffs)) \<le> tau" .
qed

lemma projection_feasible:
  assumes "ProjectionToL1 tau s = Inr s'"
  shows "accu (abs_vec (currentCoeffs s')) \<le> tau"
proof (cases "accu (abs_vec (currentCoeffs s)) \<le> tau")
  case True
  with assms show ?thesis by (simp add: ProjectionToL1_feasible_id)
next
  case False
  let ?sol = "sort_descend (abs_vec (currentCoeffs s))"
  from False have inf: "tau < accu (abs_vec (currentCoeffs s))" by simp
  from assms False obtain rho where piv: "pivot_scan ?sol (cumsum ?sol) tau 1 None = Some rho"
    by (auto simp: ProjectionToL1_def Let_def split: option.splits)
  from assms have pos: "0 < rho"
    unfolding ProjectionToL1_rho [OF inf piv] by (simp split: if_splits)
  from assms pos have "currentCoeffs s' =
      map (soft_threshold ((cumsum ?sol ! rho - tau) / real rho)) (currentCoeffs s)"
    unfolding ProjectionToL1_rho [OF inf piv] by auto
  with theta_feasible(2) [OF inf piv pos] show ?thesis by simp
qed

lemma ProjectionToL1_length:
  assumes "ProjectionToL1 tau s = Inr s'"
  shows "length (currentCoeffs s') = length (currentCoeffs s) \<and> currentAtoms s' = currentAtoms s"
proof (cases "accu (abs_vec (currentCoeffs s)) \<le> tau")
  case True
  with assms show ?thesis by (simp add: ProjectionToL1_feasible_id)
next
  case False
  let ?sol = "sort_descend (abs_vec (currentCoeffs s))"
  from False have inf: "tau < accu (abs_vec (currentCoeffs s))" by simp
  from assms False obtain rho where piv: "pivot_scan ?sol (cumsum ?sol) tau 1 None = Some rho"
    by (auto simp: ProjectionToL1_def Let_def split: option.splits)
  from assms show ?thesis
    unfolding ProjectionToL1_rho [OF inf piv] by (auto split: if_splits)
qed

subsection \<open>The projection in exact arithmetic\<close>

text \<open>
  Over \<^typ>\<open>real\<close> every output of the projection lies in the ball, so it is a fixed
  point of the projection.
\<close>

lemma ProjectionToL1_exact_idempotent:
  "ProjectionToL1 tau s = Inr s' \<Longrightarrow> ProjectionToL1 tau s' = Inr s'"
  by (simp add: projection_feasible ProjectionToL1_feasible_id)

text \<open>
  Over \<^typ>\<open>real\<close>, on the rational numbers 0.7, 0.5 and -0.9 and radius 1: the
  search stops at \<open>rho = 2\<close>, the threshold is \<open>(2.1 - 1) / 2 = 0.55\<close>, and the result
  is \<open>[0.15, 0, -0.35]\<close>.
\<close>

lemma ProjectionToL1_exact_example:
  "accu (abs_vec [0.7, 0.5, -0.9]) = 2.1 \<and> \<not> accu (abs_vec [0.7, 0.5, -0.9]) \<le> 1
   \<and> sort_descend (abs_vec [0.7, 0.5, -0.9]) = [0.9, 0.7, 0.5]
   \<and> cumsum [0.9, 0.7, 0.5] = [0.9, 1.6, 2.1]
   \<and> simplex_nu [0.9, 0.7, 0.5] [0.9, 1.6, 2.1] 1 2 = 0.5 - (2.1 - 1) / 3
   \<and> pivot_scan [0.9, 0.7, 0.5] [0.9, 1.6, 2.1] 1 1 None = Some 2
   \<and> threshold_theta [0.9, 1.6, 2.1] 1 2 = Inr ((2.1 - 1) / 2)
   \<and> threshold_theta [0.9, 1.6, 2.1] 1 2 = Inr 0.55
   \<and> threshold_theta [0.9, 1.6, 2.1] 1 2 \<noteq> Inr ((2.1 - 1) / 3)
   \<and> ProjectionToL1 1 \<lparr>currentCoeffs = [0.7, 0.5, -0.9], currentAtoms = A\<rparr>
       = Inr \<lparr>currentCoeffs = [0.15, 0, -0.35], currentAtoms = A\<rparr>"
proof -
  let ?s = "\<lparr>currentCoeffs = [0.7, 0.5, -0.9], currentAtoms = A\<rparr>"
  have inf: "1 < accu (abs_vec (currentCoeffs ?s))"
    by (simp add: accu_def abs_vec_def)
  have piv: "pivot_scan (sort_descend (abs_vec (currentCoeffs ?s)))
               (cumsum (sort_descend (abs_vec (currentCoeffs ?s)))) 1 1 None = Some 2"
    by (simp add: sort_descend_def abs_vec_def cumsum_def pivot_scan.simps)
  have "ProjectionToL1 1 ?s = Inr \<lparr>currentCoeffs = [0.15, 0, -0.35], currentAtoms = A\<rparr>"
    unfolding ProjectionToL1_rho [OF inf piv]
    by (simp add: sort_descend_def abs_vec_def cumsum_def soft_threshold_def)
  moreover have "accu (abs_vec [0.7, 0.5, -0.9]) = 2.1 \<and> \<not> accu (abs_vec [0.7, 0.5, -0.9]) \<le> 1"
    by (simp add: accu_def abs_vec_def)
  moreover have "sort_descend (abs_vec [0.7, 0.5, -0.9]) = [0.9, 0.7, 0.5]"
    by (simp add: sort_descend_def abs_vec_def)
  moreover have "cumsum [0.9, 0.7, 0.5] = [0.9, 1.6, 2.1]"
    by (simp add: cumsum_def)
  moreover have "simplex_nu [0.9, 0.7, 0.5] [0.9, 1.6, 2.1] 1 2 = 0.5 - (2.1 - 1) / 3"
    by (simp add: simplex_nu_def)
  moreover have "pivot_scan [0.9, 0.7, 0.5] [0.9, 1.6, 2.1] 1 1 None = Some 2"
    by (simp add: pivot_scan.simps)
  moreover have "threshold_theta [0.9, 1.6, 2.1] 1 2 = Inr ((2.1 - 1) / 2)
      \<and> threshold_theta [0.9, 1.6, 2.1] 1 2 = Inr 0.55
      \<and> threshold_theta [0.9, 1.6, 2.1] 1 2 \<noteq> Inr ((2.1 - 1) / 3)"
    by (simp add: threshold_theta_def)
  ultimately show ?thesis by blast
qed

lemma ProjectionToL1_single:
  assumes "0 < tau" "tau < \<bar>c\<bar>" "currentCoeffs s = [c]"
  shows "ProjectionToL1 tau s = Inl DivisionByZero"
proof -
  from assms have inf: "tau < accu (abs_vec (currentCoeffs s))"
    by (simp add: accu_def abs_vec_def)
  have piv: "pivot_scan (sort_descend (abs_vec (currentCoeffs s)))
               (cumsum (sort_descend (abs_vec (currentCoeffs s)))) tau 1 None = Some 0"
    using assms by (simp add: sort_descend_def abs_vec_def cumsum_def pivot_scan.simps)
  show ?thesis
    unfolding ProjectionToL1_rho [OF inf piv] by simp
qed

text \<open>
  C2. The division \<open>(simplexSum(rho) - tau) / rho\<close> is not guarded against \<open>rho = 0\<close>:
  a single coefficient of absolute value above \<open>tau > 0\<close> divides by zero, so does every
  infeasible vector whose pivot search stops at \<open>rho = 0\<close>, and the failure is reached
  from \<open>ProjectedGradientEnhancement\<close> (one atom, coefficient 2, radius 1, step 0.1).
\<close>

theorem ProjectionToL1_division_by_zero:
  "(0 < tau \<and> tau < \<bar>c\<bar> \<and> currentCoeffs s = [c] \<longrightarrow> ProjectionToL1 tau s = Inl DivisionByZero)
   \<and> (tau < accu (abs_vec (currentCoeffs s')) \<and>
      pivot_scan (sort_descend (abs_vec (currentCoeffs s')))
        (cumsum (sort_descend (abs_vec (currentCoeffs s')))) tau 1 None = Some 0
      \<longrightarrow> ProjectionToL1 tau s' = Inl DivisionByZero)
   \<and> raised (ProjectedGradientEnhancement (LeastSquares \<lparr>n_rows = 1, cols = [[1]]\<rparr> [1]) 1 0.1 2 0.001
        \<lparr>currentCoeffs = [2], currentAtoms = \<lparr>n_rows = 1, cols = [[1]]\<rparr>\<rparr>) = Some DivisionByZero"
proof (intro conjI impI)
  assume a: "0 < tau \<and> tau < \<bar>c\<bar> \<and> currentCoeffs s = [c]"
  then show "ProjectionToL1 tau s = Inl DivisionByZero"
    by (blast intro: ProjectionToL1_single)
next
  assume "tau < accu (abs_vec (currentCoeffs s')) \<and>
      pivot_scan (sort_descend (abs_vec (currentCoeffs s')))
        (cumsum (sort_descend (abs_vec (currentCoeffs s')))) tau 1 None = Some 0"
  then show "ProjectionToL1 tau s' = Inl DivisionByZero"
    by (simp add: ProjectionToL1_rho)
next
  show "raised (ProjectedGradientEnhancement (LeastSquares \<lparr>n_rows = 1, cols = [[1]]\<rparr> [1]) 1 0.1 2 0.001
        \<lparr>currentCoeffs = [2], currentAtoms = \<lparr>n_rows = 1, cols = [[1]]\<rparr>\<rparr>) = Some DivisionByZero"
    by (simp add: ProjectedGradientEnhancement_def LeastSquares_def RecoverVector_def mat_vec_def
        n_cols_def residual_def vec_minus_def square_def PGE_loop.simps [of _ _ _ _ _ "Suc 0"]
        PGE_body_def matT_vec_def dot_def Let_def ProjectionToL1_single [of 1 "19/10"])
qed

theorem ProjectionToL1_division_by_zero_witness:
  "0 < (1::real) \<and> 1 < \<bar>2::real\<bar> \<and> currentCoeffs \<lparr>currentCoeffs = [2], currentAtoms = \<lparr>n_rows = 1, cols = [[1]]\<rparr>\<rparr> = [2]
   \<and> ProjectionToL1 1 \<lparr>currentCoeffs = [2], currentAtoms = \<lparr>n_rows = 1, cols = [[1]]\<rparr>\<rparr> = Inl DivisionByZero
   \<and> 1 < accu (abs_vec (currentCoeffs \<lparr>currentCoeffs = [3, 1, 1], currentAtoms = \<lparr>n_rows = 1, cols = [[1], [1], [1]]\<rparr>\<rparr>))
   \<and> pivot_scan (sort_descend (abs_vec [3, 1, 1])) (cumsum (sort_descend (abs_vec [3, 1, 1]))) 1 1 None = Some 0
   \<and> ProjectionToL1 1 \<lparr>currentCoeffs = [3, 1, 1], currentAtoms = \<lparr>n_rows = 1, cols = [[1], [1], [1]]\<rparr>\<rparr> = Inl DivisionByZero"
proof -
  have piv: "pivot_scan (sort_descend (abs_vec [3, 1, 1])) (cumsum (sort_descend (abs_vec [3, 1, 1]))) 1 1 None = Some 0"
    by (simp add: sort_descend_def abs_vec_def cumsum_def pivot_scan.simps)
  have inf: "1 < accu (abs_vec [3, 1, 1])"
    by (simp add: accu_def abs_vec_def)
  show ?thesis
    using ProjectionToL1_division_by_zero [of 1 2 "\<lparr>currentCoeffs = [2], currentAtoms = \<lparr>n_rows = 1, cols = [[1]]\<rparr>\<rparr>"
        "\<lparr>currentCoeffs = [3, 1, 1], currentAtoms = \<lparr>n_rows = 1, cols = [[1], [1], [1]]\<rparr>\<rparr>"] piv inf
    by simp
qed

text \<open>
  Over \<^typ>\<open>real\<close>, when the sum of absolute values exceeds \<open>tau\<close> and the pivot
  search stops at some \<open>rho \<ge> 1\<close>, the threshold is at least the one with the divisor
  \<open>rho + 1\<close> and the result lies in the ball of radius \<open>tau\<close>.
\<close>

lemma ProjectionToL1_exact_inside_ball:
  assumes "tau < accu (abs_vec (currentCoeffs s))"
    and "pivot_scan (sort_descend (abs_vec (currentCoeffs s)))
           (cumsum (sort_descend (abs_vec (currentCoeffs s)))) tau 1 None = Some rho"
    and "1 \<le> rho"
  shows "\<exists>s' theta. threshold_theta (cumsum (sort_descend (abs_vec (currentCoeffs s)))) tau rho = Inr theta
      \<and> (cumsum (sort_descend (abs_vec (currentCoeffs s))) ! rho - tau) / (real rho + 1) \<le> theta
      \<and> ProjectionToL1 tau s = Inr s'
      \<and> accu (abs_vec (currentCoeffs s')) \<le> tau"
proof -
  from assms(3) have pos: "0 < rho" by simp
  show ?thesis
    using pos theta_feasible [OF assms(1,2) pos] ProjectionToL1_rho [OF assms(1,2)]
    by (simp add: threshold_theta_def)
qed

subsection \<open>Facts about the projection in the arithmetic of \<open>double\<close>\<close>

lemmas round64_eval = round64_def ilog2_def round_half_even_def bits.simps Let_def

lemmas ops64_eval = sub64_def max64_def min64_def of_size_def nu64_def theta64_def
  soft_threshold64_def cumsum64_def sort_descend64_def accu64_two_def accu64_sequential_def

lemma pivot_scan64_break:
  "j \<le> length s \<Longrightarrow> lt64 (Finite 0) (nu64 s c tau (length s - j)) \<Longrightarrow>
   pivot_scan64 s c tau j rho = Some (length s - j)"
  by (subst pivot_scan64.simps) (simp add: Let_def)




lemma threshold_loop64_eq:
  "n = length cs \<Longrightarrow> j \<le> length cs \<Longrightarrow>
   threshold_loop64 theta n j cs = take j cs @ map (soft_threshold64 theta) (drop j cs)"
proof (induction "length cs - j" arbitrary: j cs)
  case 0
  then show ?case by (simp add: threshold_loop64.simps)
next
  case (Suc k)
  then have lt: "j < length cs" by simp
  let ?cs = "cs[j := soft_threshold64 theta (cs ! j)]"
  have "threshold_loop64 theta n j cs = threshold_loop64 theta n (Suc j) ?cs"
    using lt Suc.prems by (subst threshold_loop64.simps) simp
  also have "\<dots> = take (Suc j) ?cs @ map (soft_threshold64 theta) (drop (Suc j) ?cs)"
    using Suc.hyps(2) lt Suc.prems by (intro Suc.hyps(1)) simp_all
  also have "\<dots> = take j cs @ map (soft_threshold64 theta) (drop j cs)"
    using lt by (simp add: take_Suc_conv_app_nth Cons_nth_drop_Suc [symmetric])
  finally show ?case .
qed

lemma insort64_length: "length (insort64 x ys) = Suc (length ys)"
  by (induction ys) simp_all

lemma sort_descend64_length: "length (sort_descend64 v) = length v"
  by (induction v) (simp_all add: sort_descend64_def insort64_length)

lemma insort64_Finite: "insort64 (Finite x) (map Finite ys) = map Finite (insort x ys)"
  by (induction ys) simp_all

lemma sort_descend64_Finite: "sort_descend64 (map Finite xs) = map Finite (sort_descend xs)"
proof -
  have "foldr insort64 (map Finite xs) [] = map Finite (sort xs)"
    by (induction xs) (simp_all add: insort64_Finite)
  then show ?thesis by (simp add: sort_descend64_def sort_descend_def rev_map)
qed

lemma abs64_Finite: "map abs64 (map Finite cs) = map Finite (abs_vec cs)"
  by (simp add: abs_vec_def)




lemma ProjectionToL1_binary64_rho:
  assumes "\<not> le64 (accu_d (map abs64 c)) tau"
    and "NaN \<notin> set (map abs64 c)"
    and "pivot_scan64 (sort_descend64 (map abs64 c)) (cumsum64 (sort_descend64 (map abs64 c)))
           tau 1 None = Some rho"
  shows "ProjectionToL1_binary64 accu_d tau c =
     Inr (map (soft_threshold64 (theta64 (cumsum64 (sort_descend64 (map abs64 c))) tau rho)) c)"
  using assms
  by (simp add: ProjectionToL1_binary64_def Let_def sort_descend64_length threshold_loop64_eq
      del: set_map)


text \<open>The example vectors, evaluated.\<close>

lemma ex_coeffs64_values:
  "ex_coeffs64 = [Finite (3152519739159347 / 2 ^ 52), Finite (1 / 2),
                  Finite (- (8106479329266893 / 2 ^ 53))]"
  by (simp add: ex_coeffs64_def round64_eval)

lemma ex_coeffs64_projected:
  assumes "accu_d = accu64_two \<or> accu_d = accu64_sequential"
  shows "ProjectionToL1_binary64 accu_d (Finite 1) ex_coeffs64 =
     Inr [Finite (5404319552844592 / 2 ^ 55), Finite 0, Finite (- (3152519739159347 / 2 ^ 53))]"
proof -
  let ?c = "[Finite (3152519739159347 / 2 ^ 52), Finite (1 / 2),
             Finite (- (8106479329266893 / 2 ^ 53))]"
  have inf: "\<not> le64 (accu_d (map abs64 ?c)) (Finite 1)"
    using assms by (auto simp: ops64_eval round64_eval)
  have nonan: "NaN \<notin> set (map abs64 ?c)" by simp
  have piv: "pivot_scan64 (sort_descend64 (map abs64 ?c)) (cumsum64 (sort_descend64 (map abs64 ?c)))
           (Finite 1) 1 None = Some 2"
    by (simp add: ops64_eval round64_eval pivot_scan64_break)
  show ?thesis
    unfolding ex_coeffs64_values
      ProjectionToL1_binary64_rho [where accu_d = accu_d and c = ?c, OF inf nonan piv]
    by (simp add: ops64_eval round64_eval)
qed

lemma ex_tiny_values64:
  "ex_tiny = [Finite (1 / 2 ^ 54), Finite (1 / 2 ^ 54), Finite (1 / 2 ^ 54), Finite (1 / 2 ^ 54),
     Finite (1 / 2 ^ 54), Finite (1 / 2 ^ 54), Finite (1 / 2 ^ 54), Finite (1 / 2 ^ 54), Finite 1]"
  by (simp add: ex_tiny_def ex_tiny_values_def)

lemma ex_tiny_infeasible:
  assumes "accu_d = accu64_two \<or> accu_d = accu64_sequential"
  shows "accu_d (map abs64 ex_tiny) = Finite (1 + 1 / 2 ^ 51)"
  using assms by (auto simp: ex_tiny_values64 ops64_eval round64_eval)

lemma ex_tiny_pivot_1:
  "pivot_scan64 (sort_descend64 (map abs64 ex_tiny)) (cumsum64 (sort_descend64 (map abs64 ex_tiny)))
     (Finite 1) 1 None = Some 8"
  by (simp add: ex_tiny_values64 ops64_eval round64_eval pivot_scan64_break)

lemma ex_tiny_theta_1:
  "theta64 (cumsum64 (sort_descend64 (map abs64 ex_tiny))) (Finite 1) 8 = Finite 0"
  by (simp add: ex_tiny_values64 ops64_eval round64_eval)

lemma ex_tiny_projected_1:
  assumes "accu_d = accu64_two \<or> accu_d = accu64_sequential"
  shows "ProjectionToL1_binary64 accu_d (Finite 1) ex_tiny = Inr ex_tiny"
proof -
  have inf: "\<not> le64 (accu_d (map abs64 ex_tiny)) (Finite 1)"
    by (simp add: ex_tiny_infeasible [OF assms])
  have nonan: "NaN \<notin> set (map abs64 ex_tiny)"
    by (simp add: ex_tiny_values64)
  show ?thesis
    unfolding ProjectionToL1_binary64_rho [where accu_d = accu_d and c = ex_tiny,
        OF inf nonan ex_tiny_pivot_1] ex_tiny_theta_1
    by (simp add: ex_tiny_values64 ops64_eval round64_eval)
qed


lemma ex_tiny_theta_2:
  "theta64 (cumsum64 (sort_descend64 (map abs64 ex_tiny))) (Finite (1 + 1 / 2 ^ 52)) 8
     = Finite (- (1 / 2 ^ 55))"
  by (simp add: ex_tiny_values64 ops64_eval round64_eval)





text \<open>
  C1, as the claim states it, fails. On the doubles nearest to 0.7, 0.5 and -0.9, with
  \<open>tau = 1.0\<close>, the result is not the vector of the doubles nearest to 0.15, 0 and
  -0.35, whichever of the two orders \<open>accu\<close> adds in: its first entry differs.
\<close>

theorem ProjectionToL1_example_counterexample:
  "ProjectionToL1_binary64 accu64_two (Finite 1) ex_coeffs64
     \<noteq> Inr [round64 0.15, round64 0, round64 (- 0.35)]
   \<and> ProjectionToL1_binary64 accu64_sequential (Finite 1) ex_coeffs64
     \<noteq> Inr [round64 0.15, round64 0, round64 (- 0.35)]"
  by (simp add: ex_coeffs64_projected) (simp add: round64_eval)

text \<open>
  C1, amended. On the doubles nearest to 0.7, 0.5 and -0.9, with \<open>tau = 1.0\<close>: the sum
  of the absolute values is the double 2.1, above 1, so the infeasible branch is taken;
  the sorted absolute values are the doubles 0.9, 0.7, 0.5 and their partial sums the
  doubles 0.9, 1.6, 2.1; the search stops at once, at \<open>rho = 2\<close>, where \<open>nu\<close> is
  positive; \<open>theta\<close> is \<open>(2.1 - 1) / 2\<close> rounded, with the divisor \<open>rho\<close> and not
  \<open>rho + 1\<close>, which is the double 0.55; and the result is
  \<open>[0.1499999999999999, 0, -0.35]\<close>: the first entry lies three units in the last place
  (of \<open>2^-55\<close> each) below the double nearest to 0.15, the middle one is exactly zero,
  and the last is the double nearest to -0.35. Both orders of \<open>accu\<close> give this.
\<close>

theorem ProjectionToL1_binary64_example:
  "accu64_two (map abs64 ex_coeffs64) = round64 2.1
   \<and> \<not> le64 (accu64_two (map abs64 ex_coeffs64)) (Finite 1)
   \<and> sort_descend64 (map abs64 ex_coeffs64) = [round64 0.9, round64 0.7, round64 0.5]
   \<and> cumsum64 [round64 0.9, round64 0.7, round64 0.5] = [round64 0.9, round64 1.6, round64 2.1]
   \<and> lt64 (Finite 0)
        (nu64 [round64 0.9, round64 0.7, round64 0.5] [round64 0.9, round64 1.6, round64 2.1]
           (Finite 1) 2)
   \<and> pivot_scan64 [round64 0.9, round64 0.7, round64 0.5]
        [round64 0.9, round64 1.6, round64 2.1] (Finite 1) 1 None = Some 2
   \<and> theta64 [round64 0.9, round64 1.6, round64 2.1] (Finite 1) 2 = round64 0.55
   \<and> theta64 [round64 0.9, round64 1.6, round64 2.1] (Finite 1) 2
        \<noteq> div64 (sub64 (round64 2.1) (Finite 1)) (of_size 3)
   \<and> round64 0.15 = Finite (5404319552844595 / 2 ^ 55)
   \<and> ProjectionToL1_binary64 accu64_two (Finite 1) ex_coeffs64
        = Inr [Finite (5404319552844595 / 2 ^ 55 - 3 / 2 ^ 55), Finite 0, round64 (- 0.35)]
   \<and> ProjectionToL1_binary64 accu64_sequential (Finite 1) ex_coeffs64
        = Inr [Finite (5404319552844595 / 2 ^ 55 - 3 / 2 ^ 55), Finite 0, round64 (- 0.35)]"
proof -
  have "accu64_two (map abs64 ex_coeffs64) = round64 2.1
      \<and> \<not> le64 (accu64_two (map abs64 ex_coeffs64)) (Finite 1)"
    by (simp add: ex_coeffs64_values ops64_eval round64_eval)
  moreover have "sort_descend64 (map abs64 ex_coeffs64) = [round64 0.9, round64 0.7, round64 0.5]"
    by (simp add: ex_coeffs64_values ops64_eval round64_eval)
  moreover have "cumsum64 [round64 0.9, round64 0.7, round64 0.5]
      = [round64 0.9, round64 1.6, round64 2.1]"
    by (simp add: ops64_eval round64_eval)
  moreover have "lt64 (Finite 0)
        (nu64 [round64 0.9, round64 0.7, round64 0.5] [round64 0.9, round64 1.6, round64 2.1]
           (Finite 1) 2)"
    by (simp add: ops64_eval round64_eval)
  moreover have "pivot_scan64 [round64 0.9, round64 0.7, round64 0.5]
        [round64 0.9, round64 1.6, round64 2.1] (Finite 1) 1 None = Some 2"
    by (simp add: ops64_eval round64_eval pivot_scan64_break)
  moreover have "theta64 [round64 0.9, round64 1.6, round64 2.1] (Finite 1) 2 = round64 0.55
      \<and> theta64 [round64 0.9, round64 1.6, round64 2.1] (Finite 1) 2
        \<noteq> div64 (sub64 (round64 2.1) (Finite 1)) (of_size 3)"
    by (simp add: ops64_eval round64_eval)
  moreover have "round64 0.15 = Finite (5404319552844595 / 2 ^ 55)"
    by (simp add: round64_eval)
  moreover have "ProjectionToL1_binary64 accu64_two (Finite 1) ex_coeffs64
        = Inr [Finite (5404319552844595 / 2 ^ 55 - 3 / 2 ^ 55), Finite 0, round64 (- 0.35)]"
    by (simp add: ex_coeffs64_projected) (simp add: round64_eval)
  moreover have "ProjectionToL1_binary64 accu64_sequential (Finite 1) ex_coeffs64
        = Inr [Finite (5404319552844595 / 2 ^ 55 - 3 / 2 ^ 55), Finite 0, round64 (- 0.35)]"
    by (simp add: ex_coeffs64_projected) (simp add: round64_eval)
  ultimately show ?thesis by blast
qed




text \<open>
  C7, as the claim states it, fails. On eight entries \<open>2^-54\<close> and a one, at radius 1:
  the sum is \<open>1 + 2^-51\<close>, above 1; the partial sums of the sorted vector all round to
  1; the search stops at \<open>rho = 8\<close>; \<open>theta\<close> is 0; and the projection returns its
  input, whose absolute values add up to \<open>1 + 2^-51\<close>, outside the ball. At radius
  \<open>1 + 2^-52\<close> the \<open>theta\<close> of the code, \<open>-2^-55\<close>, lies below the threshold with
  the divisor \<open>rho + 1\<close>.
\<close>

theorem ProjectionToL1_inside_ball_counterexample:
  "\<not> le64 (accu64_two (map abs64 ex_tiny)) (Finite 1)
   \<and> pivot_scan64 (sort_descend64 (map abs64 ex_tiny))
        (cumsum64 (sort_descend64 (map abs64 ex_tiny))) (Finite 1) 1 None = Some 8
   \<and> theta64 (cumsum64 (sort_descend64 (map abs64 ex_tiny))) (Finite 1) 8 = Finite 0
   \<and> ProjectionToL1_binary64 accu64_two (Finite 1) ex_tiny = Inr (map Finite ex_tiny_values)
   \<and> ProjectionToL1_binary64 accu64_sequential (Finite 1) ex_tiny = Inr (map Finite ex_tiny_values)
   \<and> 1 < accu (abs_vec ex_tiny_values)
   \<and> lt64 (theta64 (cumsum64 (sort_descend64 (map abs64 ex_tiny))) (Finite (1 + 1 / 2 ^ 52)) 8)
        (div64 (sub64 (cumsum64 (sort_descend64 (map abs64 ex_tiny)) ! 8) (Finite (1 + 1 / 2 ^ 52)))
           (of_size 9))"
proof -
  have "\<not> le64 (accu64_two (map abs64 ex_tiny)) (Finite 1)"
    by (simp add: ex_tiny_infeasible)
  moreover have "ProjectionToL1_binary64 accu64_two (Finite 1) ex_tiny = Inr (map Finite ex_tiny_values)"
    "ProjectionToL1_binary64 accu64_sequential (Finite 1) ex_tiny = Inr (map Finite ex_tiny_values)"
    by (simp_all add: ex_tiny_projected_1) (simp_all add: ex_tiny_def)
  moreover have "1 < accu (abs_vec ex_tiny_values)"
    by (simp add: ex_tiny_values_def accu_def abs_vec_def)
  moreover have "lt64 (theta64 (cumsum64 (sort_descend64 (map abs64 ex_tiny))) (Finite (1 + 1 / 2 ^ 52)) 8)
        (div64 (sub64 (cumsum64 (sort_descend64 (map abs64 ex_tiny)) ! 8) (Finite (1 + 1 / 2 ^ 52)))
           (of_size 9))"
    unfolding ex_tiny_theta_2
    by (simp add: ex_tiny_values64 ops64_eval round64_eval)
  ultimately show ?thesis
    using ex_tiny_pivot_1 ex_tiny_theta_1 by blast
qed

text \<open>
  C7, amended. Take real coefficients and a real \<open>tau\<close>, as doubles. When the run in
  \<open>double\<close> incurs no rounding error (the sum of \<open>accu\<close>, the partial sums of
  \<open>cumsum\<close>, \<open>theta\<close> and the thresholded coefficients are the exact ones) and its
  pivot search stops where the exact one does, at some \<open>rho \<ge> 1\<close>, with the sum of
  absolute values above \<open>tau\<close>, then \<open>theta\<close> is at least the threshold with the divisor
  \<open>rho + 1\<close>, and the absolute values of the coefficients returned add up to at most
  \<open>tau\<close>. Where a sum rounds, both can fail.
\<close>

theorem ProjectionToL1_binary64_inside_ball:
  assumes "accu_d (map abs64 (map Finite coeffs)) = Finite (accu (abs_vec coeffs))"
    and "tau < accu (abs_vec coeffs)"
    and "cumsum64 (map Finite (sort_descend (abs_vec coeffs)))
           = map Finite (cumsum (sort_descend (abs_vec coeffs)))"
    and "pivot_scan64 (map Finite (sort_descend (abs_vec coeffs)))
           (map Finite (cumsum (sort_descend (abs_vec coeffs)))) (Finite tau) 1 None = Some rho"
    and "pivot_scan (sort_descend (abs_vec coeffs)) (cumsum (sort_descend (abs_vec coeffs)))
           tau 1 None = Some rho"
    and "1 \<le> rho"
    and "theta64 (map Finite (cumsum (sort_descend (abs_vec coeffs)))) (Finite tau) rho
           = Finite ((cumsum (sort_descend (abs_vec coeffs)) ! rho - tau) / real rho)"
    and "map (soft_threshold64
                (Finite ((cumsum (sort_descend (abs_vec coeffs)) ! rho - tau) / real rho)))
             (map Finite coeffs)
           = map Finite
               (map (soft_threshold ((cumsum (sort_descend (abs_vec coeffs)) ! rho - tau) / real rho))
                  coeffs)"
  shows "\<exists>out. ProjectionToL1_binary64 accu_d (Finite tau) (map Finite coeffs) = Inr (map Finite out)
      \<and> accu (abs_vec out) \<le> tau
      \<and> (cumsum (sort_descend (abs_vec coeffs)) ! rho - tau) / (real rho + 1)
          \<le> (cumsum (sort_descend (abs_vec coeffs)) ! rho - tau) / real rho"
proof -
  let ?c = "map Finite coeffs"
  let ?sol = "sort_descend (abs_vec coeffs)"
  let ?theta = "(cumsum ?sol ! rho - tau) / real rho"
  have sorted: "sort_descend64 (map abs64 ?c) = map Finite ?sol"
    by (simp only: abs64_Finite sort_descend64_Finite)
  have inf: "\<not> le64 (accu_d (map abs64 ?c)) (Finite tau)"
    using assms(2) unfolding assms(1) by simp
  have nonan: "NaN \<notin> set (map abs64 ?c)"
    by (auto simp: abs64_Finite)
  have piv: "pivot_scan64 (sort_descend64 (map abs64 ?c)) (cumsum64 (sort_descend64 (map abs64 ?c)))
       (Finite tau) 1 None = Some rho"
    unfolding sorted assms(3) by (rule assms(4))
  have "ProjectionToL1_binary64 accu_d (Finite tau) ?c =
      Inr (map (soft_threshold64 (theta64 (cumsum64 (sort_descend64 (map abs64 ?c))) (Finite tau) rho)) ?c)"
    by (rule ProjectionToL1_binary64_rho [where accu_d = accu_d and c = ?c, OF inf nonan piv])
  then have out: "ProjectionToL1_binary64 accu_d (Finite tau) ?c =
      Inr (map Finite (map (soft_threshold ?theta) coeffs))"
    unfolding sorted assms(3) assms(7) assms(8) .
  from assms(6) have pos: "0 < rho" by simp
  note exact = theta_feasible [OF assms(2) assms(5) pos]
  from out exact show ?thesis by blast
qed

theorem ProjectionToL1_binary64_inside_ball_witness:
  "accu64_two (map abs64 (map Finite ex_dyadic)) = Finite (accu (abs_vec ex_dyadic))
   \<and> 1 < accu (abs_vec ex_dyadic)
   \<and> cumsum64 (map Finite (sort_descend (abs_vec ex_dyadic)))
       = map Finite (cumsum (sort_descend (abs_vec ex_dyadic)))
   \<and> pivot_scan64 (map Finite (sort_descend (abs_vec ex_dyadic)))
       (map Finite (cumsum (sort_descend (abs_vec ex_dyadic)))) (Finite 1) 1 None = Some 2
   \<and> pivot_scan (sort_descend (abs_vec ex_dyadic)) (cumsum (sort_descend (abs_vec ex_dyadic)))
       1 1 None = Some 2
   \<and> (1::nat) \<le> 2
   \<and> theta64 (map Finite (cumsum (sort_descend (abs_vec ex_dyadic)))) (Finite 1) 2 = Finite (5 / 8)
   \<and> (cumsum (sort_descend (abs_vec ex_dyadic)) ! 2 - 1) / real 2 = 5 / 8
   \<and> map (soft_threshold64 (Finite (5 / 8))) (map Finite ex_dyadic)
       = map Finite (map (soft_threshold (5 / 8)) ex_dyadic)
   \<and> (\<exists>out. ProjectionToL1_binary64 accu64_two (Finite 1) (map Finite ex_dyadic)
               = Inr (map Finite out)
          \<and> accu (abs_vec out) \<le> 1)"
proof -
  have h1: "accu64_two (map abs64 (map Finite ex_dyadic)) = Finite (accu (abs_vec ex_dyadic))"
    by (simp add: ex_dyadic_def accu_def abs_vec_def ops64_eval round64_eval)
  have h2: "1 < accu (abs_vec ex_dyadic)"
    by (simp add: ex_dyadic_def accu_def abs_vec_def)
  have sol: "sort_descend (abs_vec ex_dyadic) = [1, 3 / 4, 1 / 2]"
    by (simp add: ex_dyadic_def abs_vec_def sort_descend_def)
  have cum: "cumsum [1, 3 / 4, 1 / 2] = [1, 7 / 4, 9 / 4]"
    by (simp add: cumsum_def)
  have h3: "cumsum64 (map Finite (sort_descend (abs_vec ex_dyadic)))
       = map Finite (cumsum (sort_descend (abs_vec ex_dyadic)))"
    unfolding sol cum by (simp add: ops64_eval round64_eval)
  have h4: "pivot_scan64 (map Finite (sort_descend (abs_vec ex_dyadic)))
       (map Finite (cumsum (sort_descend (abs_vec ex_dyadic)))) (Finite 1) 1 None = Some 2"
    unfolding sol cum by (simp add: ops64_eval round64_eval pivot_scan64_break)
  have h5: "pivot_scan (sort_descend (abs_vec ex_dyadic)) (cumsum (sort_descend (abs_vec ex_dyadic)))
       1 1 None = Some 2"
    unfolding sol cum by (simp add: pivot_scan.simps)
  have h6: "(1::nat) \<le> 2" by simp
  have th: "(cumsum (sort_descend (abs_vec ex_dyadic)) ! 2 - 1) / real 2 = 5 / 8"
    unfolding sol cum by simp
  have h7: "theta64 (map Finite (cumsum (sort_descend (abs_vec ex_dyadic)))) (Finite 1) 2
       = Finite ((cumsum (sort_descend (abs_vec ex_dyadic)) ! 2 - 1) / real 2)"
    unfolding sol cum by (simp add: ops64_eval round64_eval)
  have h8: "map (soft_threshold64 (Finite ((cumsum (sort_descend (abs_vec ex_dyadic)) ! 2 - 1) / real 2)))
             (map Finite ex_dyadic)
           = map Finite
               (map (soft_threshold ((cumsum (sort_descend (abs_vec ex_dyadic)) ! 2 - 1) / real 2))
                  ex_dyadic)"
    unfolding th by (simp add: ex_dyadic_def soft_threshold_def ops64_eval round64_eval)
  from ProjectionToL1_binary64_inside_ball [where accu_d = accu64_two and coeffs = ex_dyadic
      and tau = 1 and rho = 2, OF h1 h2 h3 h4 h5 h6 h7 h8]
  have "\<exists>out. ProjectionToL1_binary64 accu64_two (Finite 1) (map Finite ex_dyadic)
               = Inr (map Finite out) \<and> accu (abs_vec out) \<le> 1"
    by blast
  with h1 h2 h3 h4 h5 h6 h7 h8 th show ?thesis
    by (simp only: th)
qed

subsection \<open>Facts about the pruning loop\<close>

lemma PruneCandidate_n_cols:
  "PruneCandidate fn s atomSqTerm = Inr (ind, newAtoms) \<Longrightarrow>
   Suc (n_cols newAtoms) = n_cols (currentAtoms s)"
  by (auto simp: PruneCandidate_def shed_col_def shed_def n_cols_def
      split: sum.splits if_splits)

lemma PruneRefit_accepts:
  "PruneRefit fn solve newAtoms = Inr (newCoeffs, Fnew) \<Longrightarrow> Fnew \<le> F \<Longrightarrow>
   within_threshold fn F (s\<lparr>currentAtoms := newAtoms, currentCoeffs := newCoeffs\<rparr>)
   \<and> coeffs_match (s\<lparr>currentAtoms := newAtoms, currentCoeffs := newCoeffs\<rparr>)"
  by (auto simp: PruneRefit_def within_threshold_def coeffs_match_def RecoverVector_def
      mat_vec_def split: sum.splits if_splits)

lemma PruneLoop_stop:
  "PruneCandidate fn s atomSqTerm = Inl e \<Longrightarrow>
   PruneLoop F fn solve s atomSqTerm =
     \<lparr>final = s, raised = Some e, scores = atomSqTerm, refits = [], commits = 0\<rparr>"
  by (subst PruneLoop.simps) simp

lemma PruneLoop_refit_fails:
  "PruneCandidate fn s atomSqTerm = Inr (ind, newAtoms) \<Longrightarrow>
   PruneRefit fn solve newAtoms = Inl e \<Longrightarrow>
   PruneLoop F fn solve s atomSqTerm =
     \<lparr>final = s, raised = Some e, scores = atomSqTerm, refits = [newAtoms], commits = 0\<rparr>"
  by (subst PruneLoop.simps) simp

lemma PruneLoop_reject:
  "PruneCandidate fn s atomSqTerm = Inr (ind, newAtoms) \<Longrightarrow>
   PruneRefit fn solve newAtoms = Inr (newCoeffs, Fnew) \<Longrightarrow> F < Fnew \<Longrightarrow>
   PruneLoop F fn solve s atomSqTerm =
     \<lparr>final = s, raised = None, scores = atomSqTerm, refits = [newAtoms], commits = 0\<rparr>"
  by (subst PruneLoop.simps) simp

lemma PruneLoop_shed_fails:
  "PruneCandidate fn s atomSqTerm = Inr (ind, newAtoms) \<Longrightarrow>
   PruneRefit fn solve newAtoms = Inr (newCoeffs, Fnew) \<Longrightarrow> Fnew \<le> F \<Longrightarrow>
   shed_row atomSqTerm ind = Inl e \<Longrightarrow>
   PruneLoop F fn solve s atomSqTerm =
     \<lparr>final = s\<lparr>currentAtoms := newAtoms, currentCoeffs := newCoeffs\<rparr>, raised = Some e,
      scores = atomSqTerm, refits = [newAtoms], commits = 1\<rparr>"
  by (subst PruneLoop.simps) simp

lemma PruneLoop_commit:
  "PruneCandidate fn s atomSqTerm = Inr (ind, newAtoms) \<Longrightarrow>
   PruneRefit fn solve newAtoms = Inr (newCoeffs, Fnew) \<Longrightarrow> Fnew \<le> F \<Longrightarrow>
   shed_row atomSqTerm ind = Inr atomSqTerm' \<Longrightarrow>
   PruneLoop F fn solve s atomSqTerm =
     (PruneLoop F fn solve (s\<lparr>currentAtoms := newAtoms, currentCoeffs := newCoeffs\<rparr>) atomSqTerm')
       \<lparr>refits := newAtoms #
          refits (PruneLoop F fn solve (s\<lparr>currentAtoms := newAtoms, currentCoeffs := newCoeffs\<rparr>) atomSqTerm'),
        commits := Suc (commits
          (PruneLoop F fn solve (s\<lparr>currentAtoms := newAtoms, currentCoeffs := newCoeffs\<rparr>) atomSqTerm'))\<rparr>"
  by (subst PruneLoop.simps) (simp add: Let_def)

lemma PruneLoop_facts:
  "prune_facts F fn s (PruneLoop F fn solve s atomSqTerm)"
proof (induction F fn solve s atomSqTerm rule: PruneLoop.induct)
  case (1 F fn solve s atomSqTerm)
  show ?case
  proof (cases "PruneCandidate fn s atomSqTerm")
    case (Inl e)
    then show ?thesis by (simp add: PruneLoop_stop prune_facts_def)
  next
    case (Inr p)
    obtain ind newAtoms where p: "p = (ind, newAtoms)" by (cases p)
    with Inr have cand: "PruneCandidate fn s atomSqTerm = Inr (ind, newAtoms)" by simp
    note k = PruneCandidate_n_cols [OF cand]
    show ?thesis
    proof (cases "PruneRefit fn solve newAtoms")
      case (Inl e)
      with cand k show ?thesis by (simp add: PruneLoop_refit_fails prune_facts_def)
    next
      case (Inr q)
      obtain newCoeffs Fnew where q: "q = (newCoeffs, Fnew)" by (cases q)
      with Inr have refit: "PruneRefit fn solve newAtoms = Inr (newCoeffs, Fnew)" by simp
      show ?thesis
      proof (cases "F < Fnew")
        case True
        with cand refit k show ?thesis by (simp add: PruneLoop_reject prune_facts_def)
      next
        case False
        then have acc: "Fnew \<le> F" by simp
        let ?s' = "s\<lparr>currentAtoms := newAtoms, currentCoeffs := newCoeffs\<rparr>"
        note ok = PruneRefit_accepts [OF refit acc, of s]
        show ?thesis
        proof (cases "shed_row atomSqTerm ind")
          case (Inl e)
          with cand refit acc k ok show ?thesis
            by (simp add: PruneLoop_shed_fails prune_facts_def)
        next
          case (Inr atomSqTerm')
          have IH: "prune_facts F fn ?s' (PruneLoop F fn solve ?s' atomSqTerm')"
            using cand refit False Inr by (intro "1.IH") simp_all
          show ?thesis
            unfolding PruneLoop_commit [OF cand refit acc Inr]
            using IH k ok
            by (auto simp: prune_facts_def nth_Cons split: nat.splits if_splits)
        qed
      qed
    qed
  qed
qed

lemma PruneSupport_facts:
  "prune_facts F fn s (PruneSupport F fn solve s)"
  by (cases "atomSqTerm_init fn s")
     (simp_all add: PruneSupport_def PruneLoop_facts, simp add: prune_facts_def)


lemmas ex_eval = ex_objective_def ex_one_def ex_two_def ex_no_atom_def ex_an_atom_def ex_none_def
  LeastSquares_def residual_def
  atomSqTerm_init_def PruneCandidate_def PruneRefit_def RecoverVector_def mat_vec_def mat_mat_def
  n_cols_def vecT_mat_def matT_vec_def schur_def vec_minus_def dot_def square_def
  sum_square_cols_def index_min_def shed_col_def shed_row_def shed_def solve_small_def

lemma ex_one_init: "atomSqTerm_init ex_objective ex_one = Inr [2]"
  by (simp add: ex_eval)

lemma ex_one_candidate: "PruneCandidate ex_objective ex_one [2] = Inr (0, ex_no_atom)"
  by (simp add: ex_eval)

lemma ex_one_refit: "PruneRefit ex_objective solve_small ex_no_atom = Inr ([], 0.5)"
  by (simp add: ex_eval)

lemma ex_two_init: "atomSqTerm_init ex_objective ex_two = Inr [0.125, 0.125]"
  by (simp add: ex_eval)

lemma ex_two_candidate:
  "PruneCandidate ex_objective ex_two [0.125, 0.125] = Inr (0, ex_an_atom)"
  by (simp add: ex_eval)

lemma ex_two_refit: "PruneRefit ex_objective solve_small ex_an_atom = Inr ([1], 0)"
  by (simp add: ex_eval)

lemma ex_none_candidate: "PruneCandidate ex_objective ex_none [] = Inl NoElements"
  by (simp add: ex_eval)

lemma ex_one_accepted:
  "PruneSupport 1 ex_objective solve_small ex_one =
     \<lparr>final = ex_none, raised = Some NoElements, scores = [], refits = [ex_no_atom], commits = 1\<rparr>"
proof -
  have shed: "shed_row [2] 0 = Inr []" by (simp add: shed_row_def shed_def)
  have acc: "(0.5::real) \<le> 1" by simp
  have s': "ex_one\<lparr>currentAtoms := ex_no_atom, currentCoeffs := []\<rparr> = ex_none"
    by (simp add: ex_one_def ex_none_def)
  have "PruneSupport 1 ex_objective solve_small ex_one
        = PruneLoop 1 ex_objective solve_small ex_one [2]"
    by (simp add: PruneSupport_def ex_one_init)
  then show ?thesis
    unfolding PruneLoop_commit [OF ex_one_candidate ex_one_refit acc shed] s'
      PruneLoop_stop [OF ex_none_candidate]
    by simp
qed

lemma ex_one_rejected:
  "PruneSupport 0 ex_objective solve_small ex_one =
     \<lparr>final = ex_one, raised = None, scores = [2], refits = [ex_no_atom], commits = 0\<rparr>"
  unfolding PruneSupport_def ex_one_init sum.case
  by (rule PruneLoop_reject [OF ex_one_candidate ex_one_refit]) simp

lemma PruneLoop_last_atom:
  assumes cand: "PruneCandidate fn s atomSqTerm = Inr (ind, newAtoms)"
    and one: "n_cols (currentAtoms s) = 1"
  shows "refits (PruneLoop F fn solve s atomSqTerm) = [newAtoms]"
proof -
  from PruneCandidate_n_cols [OF cand] one have none: "n_cols newAtoms = 0" by simp
  show ?thesis
  proof (cases "PruneRefit fn solve newAtoms")
    case (Inl e)
    with cand show ?thesis by (simp add: PruneLoop_refit_fails)
  next
    case (Inr q)
    obtain newCoeffs Fnew where q: "q = (newCoeffs, Fnew)" by (cases q)
    with Inr have refit: "PruneRefit fn solve newAtoms = Inr (newCoeffs, Fnew)" by simp
    show ?thesis
    proof (cases "F < Fnew")
      case True
      with cand refit show ?thesis by (simp add: PruneLoop_reject)
    next
      case False
      then have acc: "Fnew \<le> F" by simp
      let ?s' = "s\<lparr>currentAtoms := newAtoms, currentCoeffs := newCoeffs\<rparr>"
      show ?thesis
      proof (cases "shed_row atomSqTerm ind")
        case (Inl e)
        with cand refit acc show ?thesis by (simp add: PruneLoop_shed_fails)
      next
        case (Inr atomSqTerm')
        have "\<exists>e. PruneCandidate fn ?s' atomSqTerm' = Inl e"
        proof (cases "PruneCandidate fn ?s' atomSqTerm'")
          case (Inl e)
          then show ?thesis by blast
        next
          case (Inr p)
          obtain ind' newAtoms' where "p = (ind', newAtoms')" by (cases p)
          with Inr have "PruneCandidate fn ?s' atomSqTerm' = Inr (ind', newAtoms')" by simp
          from PruneCandidate_n_cols [OF this] none show ?thesis by simp
        qed
        then obtain e where stop: "PruneCandidate fn ?s' atomSqTerm' = Inl e" by blast
        show ?thesis
          unfolding PruneLoop_commit [OF cand refit acc Inr] PruneLoop_stop [OF stop]
          by simp
      qed
    qed
  qed
qed

lemma PruneRefit_solves:
  assumes init: "atomSqTerm_init fn s = Inr atomSqTerm"
    and cand: "PruneCandidate fn s atomSqTerm = Inr (ind, newAtoms)"
  shows "\<exists>AnewAtoms. mat_mat (MatrixA fn) newAtoms = Inr AnewAtoms
      \<and> n_cols AnewAtoms = n_cols newAtoms
      \<and> (\<forall>e. solve AnewAtoms (Vectorb fn) = Inl e \<longrightarrow> PruneRefit fn solve newAtoms = Inl e)"
proof -
  from init have dim: "n_cols (MatrixA fn) = n_rows (currentAtoms s)"
    by (auto simp: atomSqTerm_init_def mat_mat_def split: sum.splits if_splits)
  from cand have rows: "n_rows newAtoms = n_rows (currentAtoms s)"
    by (auto simp: PruneCandidate_def shed_col_def split: sum.splits if_splits)
  let ?AN = "\<lparr>n_rows = n_rows (MatrixA fn),
              cols = map (lincomb (n_rows (MatrixA fn)) (cols (MatrixA fn))) (cols newAtoms)\<rparr>"
  have mm: "mat_mat (MatrixA fn) newAtoms = Inr ?AN"
    using dim rows by (simp add: mat_mat_def)
  have "n_cols ?AN = n_cols newAtoms" by (simp add: n_cols_def)
  moreover have "\<forall>e. solve ?AN (Vectorb fn) = Inl e \<longrightarrow> PruneRefit fn solve newAtoms = Inl e"
    by (simp add: PruneRefit_def mm)
  ultimately show ?thesis using mm by blast
qed

lemma ex_one_refit_never: "PruneRefit ex_objective solve_never ex_no_atom = Inl SolveFailed"
  by (simp add: ex_eval solve_never_def)

lemma ex_one_never:
  "PruneSupport 0 ex_objective solve_never ex_one =
     \<lparr>final = ex_one, raised = Some SolveFailed, scores = [2], refits = [ex_no_atom], commits = 0\<rparr>"
  unfolding PruneSupport_def ex_one_init sum.case
  by (rule PruneLoop_refit_fails [OF ex_one_candidate ex_one_refit_never])

text \<open>
  C3, as the claim states it, fails. With the single atom of \<open>ex_one\<close> and threshold 1,
  \<open>PruneSupport\<close> forms the trial matrix with no column, refits against it, commits the
  deletion, and then fails on the minimum of a gap vector with no element.
\<close>

theorem PruneSupport_refits_empty_counterexample:
  "n_cols (currentAtoms ex_one) = 1
   \<and> refits (PruneSupport 1 ex_objective solve_small ex_one) = [\<lparr>n_rows = 1, cols = []\<rparr>]
   \<and> is_empty \<lparr>n_rows = 1, cols = []\<rparr>
   \<and> commits (PruneSupport 1 ex_objective solve_small ex_one) = 1
   \<and> n_cols (currentAtoms (final (PruneSupport 1 ex_objective solve_small ex_one))) = 0
   \<and> raised (PruneSupport 1 ex_objective solve_small ex_one) = Some NoElements"
  by (simp add: ex_one_accepted) (simp add: ex_one_def ex_none_def ex_no_atom_def n_cols_def is_empty_def)

text \<open>
  C3, amended. \<open>PruneSupport\<close> has no guard for the last atom: on a set of exactly one
  atom the trial deletion is carried through. Whenever the scores (lines 69 to 71) and
  the candidate (lines 76 to 88) of the first pass are computed on such a set, the trial
  matrix \<open>newAtoms\<close> has no column, the product \<open>A * newAtoms\<close> of line 90 is formed and
  has no column either, \<open>solve\<close> is called on it (a solver that fails there ends the
  call with its failure, the object unchanged), and that refit is the only one of the
  call. In general, in a call on \<open>k\<close> atoms the \<open>i\<close>-th refit (from 0) is against a trial
  matrix of \<open>k - i - 1\<close> columns, so there are at most \<open>k\<close> refits, and on a set of one
  atom every refit is against the empty matrix. A call that returns normally leaves at
  least one atom: after a committed deletion of the last atom the call ends in a failure,
  not in a further trial.
\<close>

theorem PruneSupport_refits_unguarded:
  "(atomSqTerm_init fn s = Inr atomSqTerm \<and> PruneCandidate fn s atomSqTerm = Inr (ind, newAtoms)
      \<and> n_cols (currentAtoms s) = 1 \<longrightarrow>
        n_cols newAtoms = 0 \<and> is_empty newAtoms
      \<and> refits (PruneSupport F fn solve s) = [newAtoms]
      \<and> (\<exists>AnewAtoms. mat_mat (MatrixA fn) newAtoms = Inr AnewAtoms \<and> n_cols AnewAtoms = 0
            \<and> (\<forall>e. solve AnewAtoms (Vectorb fn) = Inl e \<longrightarrow>
                  raised (PruneSupport F fn solve s) = Some e
                  \<and> final (PruneSupport F fn solve s) = s)))
   \<and> (\<forall>i < length (refits (PruneSupport F fn solve s)).
       Suc (n_cols (refits (PruneSupport F fn solve s) ! i) + i) = n_cols (currentAtoms s))
   \<and> length (refits (PruneSupport F fn solve s)) \<le> n_cols (currentAtoms s)
   \<and> (n_cols (currentAtoms s) = 1 \<longrightarrow>
        (\<forall>M \<in> set (refits (PruneSupport F fn solve s)). n_cols M = 0 \<and> is_empty M))
   \<and> (raised (PruneSupport F fn solve s) = None \<longrightarrow>
        0 < n_cols (currentAtoms (final (PruneSupport F fn solve s))))"
proof -
  let ?r = "PruneSupport F fn solve s"
  have f: "prune_facts F fn s ?r" by (rule PruneSupport_facts)
  then have a: "\<forall>i < length (refits ?r). Suc (n_cols (refits ?r ! i) + i) = n_cols (currentAtoms s)"
    and c: "raised ?r = None \<longrightarrow> 0 < n_cols (currentAtoms (final ?r))"
    by (simp_all add: prune_facts_def)
  have b: "n_cols M = 0 \<and> is_empty M" if "n_cols (currentAtoms s) = 1" "M \<in> set (refits ?r)" for M
  proof -
    from that(2) obtain i where "i < length (refits ?r)" "M = refits ?r ! i"
      by (auto simp: in_set_conv_nth)
    with a that(1) show ?thesis by (auto simp: is_empty_def)
  qed
  have d: "length (refits ?r) \<le> n_cols (currentAtoms s)"
  proof (rule ccontr)
    assume "\<not> length (refits ?r) \<le> n_cols (currentAtoms s)"
    then have "n_cols (currentAtoms s) < length (refits ?r)" by simp
    with a have "Suc (n_cols (refits ?r ! n_cols (currentAtoms s)) + n_cols (currentAtoms s))
        = n_cols (currentAtoms s)" by blast
    then show False by simp
  qed
  have e: "n_cols newAtoms = 0 \<and> is_empty newAtoms
      \<and> refits ?r = [newAtoms]
      \<and> (\<exists>AnewAtoms. mat_mat (MatrixA fn) newAtoms = Inr AnewAtoms \<and> n_cols AnewAtoms = 0
            \<and> (\<forall>e. solve AnewAtoms (Vectorb fn) = Inl e \<longrightarrow>
                  raised ?r = Some e \<and> final ?r = s))"
    if init: "atomSqTerm_init fn s = Inr atomSqTerm"
      and cand: "PruneCandidate fn s atomSqTerm = Inr (ind, newAtoms)"
      and one: "n_cols (currentAtoms s) = 1"
  proof -
    from PruneCandidate_n_cols [OF cand] one have none: "n_cols newAtoms = 0" by simp
    have run: "?r = PruneLoop F fn solve s atomSqTerm"
      by (simp add: PruneSupport_def init)
    have only: "refits ?r = [newAtoms]"
      unfolding run by (rule PruneLoop_last_atom [OF cand one])
    from PruneRefit_solves [OF init cand, of solve] obtain AnewAtoms where
      mm: "mat_mat (MatrixA fn) newAtoms = Inr AnewAtoms"
      and nc: "n_cols AnewAtoms = n_cols newAtoms"
      and fails: "\<forall>e. solve AnewAtoms (Vectorb fn) = Inl e \<longrightarrow> PruneRefit fn solve newAtoms = Inl e"
      by blast
    have "raised ?r = Some e \<and> final ?r = s" if "solve AnewAtoms (Vectorb fn) = Inl e" for e
    proof -
      from fails that have "PruneRefit fn solve newAtoms = Inl e" by blast
      from PruneLoop_refit_fails [OF cand this, of F] show ?thesis by (simp add: run)
    qed
    with mm nc none only show ?thesis by (auto simp: is_empty_def)
  qed
  from a b c d e show ?thesis by blast
qed

theorem PruneSupport_refits_unguarded_witness:
  "atomSqTerm_init ex_objective ex_one = Inr [2]
   \<and> PruneCandidate ex_objective ex_one [2] = Inr (0, ex_no_atom)
   \<and> n_cols (currentAtoms ex_one) = 1
   \<and> n_cols ex_no_atom = 0
   \<and> refits (PruneSupport 0 ex_objective solve_small ex_one) = [ex_no_atom]
   \<and> ex_no_atom \<in> set (refits (PruneSupport 0 ex_objective solve_small ex_one))
   \<and> raised (PruneSupport 0 ex_objective solve_small ex_one) = None
   \<and> 0 < n_cols (currentAtoms (final (PruneSupport 0 ex_objective solve_small ex_one)))
   \<and> mat_mat (MatrixA ex_objective) ex_no_atom = Inr ex_no_atom
   \<and> solve_never ex_no_atom (Vectorb ex_objective) = Inl SolveFailed
   \<and> refits (PruneSupport 0 ex_objective solve_never ex_one) = [ex_no_atom]
   \<and> raised (PruneSupport 0 ex_objective solve_never ex_one) = Some SolveFailed
   \<and> final (PruneSupport 0 ex_objective solve_never ex_one) = ex_one"
  using PruneSupport_refits_unguarded [where fn = ex_objective and s = ex_one
      and atomSqTerm = "[2]" and ind = 0 and newAtoms = ex_no_atom and F = 0 and solve = solve_small]
    PruneSupport_refits_unguarded [where fn = ex_objective and s = ex_one
      and atomSqTerm = "[2]" and ind = 0 and newAtoms = ex_no_atom and F = 0 and solve = solve_never]
  by (simp add: ex_one_rejected ex_one_never ex_one_init ex_one_candidate)
     (simp add: ex_one_def ex_no_atom_def ex_objective_def LeastSquares_def n_cols_def
       mat_mat_def solve_never_def)

text \<open>
  C4. A rejected trial deletion changes nothing. When the first trial of a call yields
  \<open>Fnew > F\<close>, \<open>PruneSupport\<close> returns normally with the atoms and the coefficients it
  was called with; and a rejected trial at any pass of the loop leaves the atoms, the
  coefficients and the score list as they were when the pass began.
\<close>

theorem PruneSupport_rejection_frame:
  "(atomSqTerm_init fn s = Inr atomSqTerm \<and> PruneCandidate fn s atomSqTerm = Inr (ind, newAtoms)
      \<and> PruneRefit fn solve newAtoms = Inr (newCoeffs, Fnew) \<and> F < Fnew
    \<longrightarrow> PruneSupport F fn solve s =
          \<lparr>final = s, raised = None, scores = atomSqTerm, refits = [newAtoms], commits = 0\<rparr>)
   \<and> (PruneCandidate fn s' atomSqTerm' = Inr (ind', newAtoms')
      \<and> PruneRefit fn solve newAtoms' = Inr (newCoeffs', Fnew') \<and> F < Fnew'
    \<longrightarrow> PruneLoop F fn solve s' atomSqTerm' =
          \<lparr>final = s', raised = None, scores = atomSqTerm', refits = [newAtoms'], commits = 0\<rparr>)"
  by (auto simp: PruneSupport_def PruneLoop_reject)

theorem PruneSupport_rejection_frame_witness:
  "atomSqTerm_init ex_objective ex_one = Inr [2]
   \<and> PruneCandidate ex_objective ex_one [2] = Inr (0, ex_no_atom)
   \<and> PruneRefit ex_objective solve_small ex_no_atom = Inr ([], 0.5)
   \<and> (0::real) < 0.5
   \<and> PruneSupport 0 ex_objective solve_small ex_one =
        \<lparr>final = ex_one, raised = None, scores = [2], refits = [ex_no_atom], commits = 0\<rparr>
   \<and> PruneLoop 0 ex_objective solve_small ex_one [2] =
        \<lparr>final = ex_one, raised = None, scores = [2], refits = [ex_no_atom], commits = 0\<rparr>"
  using PruneSupport_rejection_frame [where fn = ex_objective and s = ex_one
      and atomSqTerm = "[2]" and ind = 0 and newAtoms = ex_no_atom and solve = solve_small
      and newCoeffs = "[]" and Fnew = "0.5" and F = 0 and s' = ex_one and atomSqTerm' = "[2]"
      and ind' = 0 and newAtoms' = ex_no_atom and newCoeffs' = "[]" and Fnew' = "0.5"]
    ex_one_init ex_one_candidate ex_one_refit
  by simp

text \<open>
  C5. When the first trial deletion of a call is accepted (\<open>Fnew \<le> F\<close>; a later one can
  only follow an accepted first one), at least one deletion is committed, the number of
  atoms drops by the number of commits, hence by at least one, and the state that
  \<open>PruneSupport\<close> leaves recovers to a point \<open>x\<close> with \<open>Evaluate(x) \<le> F\<close>.
\<close>

theorem PruneSupport_acceptance:
  assumes "atomSqTerm_init fn s = Inr atomSqTerm"
    and "PruneCandidate fn s atomSqTerm = Inr (ind, newAtoms)"
    and "PruneRefit fn solve newAtoms = Inr (newCoeffs, Fnew)"
    and "Fnew \<le> F"
  shows "1 \<le> commits (PruneSupport F fn solve s)
    \<and> n_cols (currentAtoms (final (PruneSupport F fn solve s))) + commits (PruneSupport F fn solve s)
        = n_cols (currentAtoms s)
    \<and> n_cols (currentAtoms (final (PruneSupport F fn solve s))) < n_cols (currentAtoms s)
    \<and> (\<exists>x v. RecoverVector (final (PruneSupport F fn solve s)) = Inr x
          \<and> Evaluate fn x = Inr v \<and> v \<le> F)"
proof -
  let ?r = "PruneSupport F fn solve s"
  have r: "?r = PruneLoop F fn solve s atomSqTerm"
    using assms(1) by (simp add: PruneSupport_def)
  have c: "1 \<le> commits ?r"
  proof (cases "shed_row atomSqTerm ind")
    case (Inl e)
    show ?thesis unfolding r PruneLoop_shed_fails [OF assms(2,3,4) Inl] by simp
  next
    case (Inr atomSqTerm')
    show ?thesis unfolding r PruneLoop_commit [OF assms(2,3,4) Inr] by simp
  qed
  have f: "prune_facts F fn s ?r" by (rule PruneSupport_facts)
  with c have "within_threshold fn F (final ?r)"
    and "n_cols (currentAtoms (final ?r)) + commits ?r = n_cols (currentAtoms s)"
    by (auto simp: prune_facts_def split: if_splits)
  with c show ?thesis
    by (auto simp: within_threshold_def split: sum.splits)
qed

theorem PruneSupport_acceptance_witness:
  "atomSqTerm_init ex_objective ex_two = Inr [0.125, 0.125]
   \<and> PruneCandidate ex_objective ex_two [0.125, 0.125] = Inr (0, ex_an_atom)
   \<and> PruneRefit ex_objective solve_small ex_an_atom = Inr ([1], 0)
   \<and> (0::real) \<le> 0
   \<and> n_cols (currentAtoms (final (PruneSupport 0 ex_objective solve_small ex_two)))
       < n_cols (currentAtoms ex_two)
   \<and> (\<exists>x v. RecoverVector (final (PruneSupport 0 ex_objective solve_small ex_two)) = Inr x
          \<and> Evaluate ex_objective x = Inr v \<and> v \<le> 0)"
  using PruneSupport_acceptance [OF ex_two_init ex_two_candidate ex_two_refit, of 0]
    ex_two_init ex_two_candidate ex_two_refit
  by simp

subsection \<open>Facts about the refinement loop\<close>

lemma ProjectionToL1_coeffs_match:
  "ProjectionToL1 tau s = Inr s' \<Longrightarrow> coeffs_match s \<Longrightarrow> coeffs_match s'"
  using ProjectionToL1_length [of tau s s'] by (simp add: coeffs_match_def)

lemma PGE_body_coeffs_match:
  assumes "coeffs_match s"
  shows "PGE_body fn tau stepSize s x = Inl (e, s') \<Longrightarrow> coeffs_match s'"
    and "PGE_body fn tau stepSize s x = Inr (s2, x', valueNew) \<Longrightarrow> coeffs_match s2"
proof -
  have step: "coeffs_match (s\<lparr>currentCoeffs := coeffs\<rparr>)"
    if "vec_minus (currentCoeffs s) v = Inr coeffs" for v coeffs
    using that assms by (auto simp: vec_minus_def coeffs_match_def split: if_splits)
  show "PGE_body fn tau stepSize s x = Inl (e, s') \<Longrightarrow> coeffs_match s'"
    using assms step
    by (auto simp: PGE_body_def Let_def split: sum.splits dest: ProjectionToL1_coeffs_match)
  show "PGE_body fn tau stepSize s x = Inr (s2, x', valueNew) \<Longrightarrow> coeffs_match s2"
    using assms step
    by (auto simp: PGE_body_def Let_def split: sum.splits dest: ProjectionToL1_coeffs_match)
qed

lemma PGE_loop_facts:
  "steps (PGE_loop fn tau stepSize maxIteration tolerance iter s x val) \<le> maxIteration - iter
   \<and> (coeffs_match s \<longrightarrow>
        coeffs_match (final (PGE_loop fn tau stepSize maxIteration tolerance iter s x val)))"
proof (induction fn tau stepSize maxIteration tolerance iter s x val rule: PGE_loop.induct)
  case (1 fn tau stepSize maxIteration tolerance iter s x val)
  show ?case
  proof (cases "iter < maxIteration")
    case False
    then show ?thesis by (subst (1 2) PGE_loop.simps) simp
  next
    case True
    show ?thesis
    proof (cases "PGE_body fn tau stepSize s x")
      case (Inl p)
      obtain e s' where p: "p = (e, s')" by (cases p)
      with Inl True PGE_body_coeffs_match(1) [of s fn tau stepSize x e s'] show ?thesis
        by (subst (1 2) PGE_loop.simps) auto
    next
      case (Inr q)
      obtain s2 x' valueNew where q: "q = (s2, x', valueNew)" by (cases q)
      note m = PGE_body_coeffs_match(2) [of s fn tau stepSize x s2 x' valueNew]
      show ?thesis
      proof (cases "val - valueNew < tolerance")
        case t: True
        with Inr q True m show ?thesis
          by (subst (1 2) PGE_loop.simps) auto
      next
        case f: False
        have IH: "steps (PGE_loop fn tau stepSize maxIteration tolerance (Suc iter) s2 x' valueNew)
              \<le> maxIteration - Suc iter
           \<and> (coeffs_match s2 \<longrightarrow>
              coeffs_match (final (PGE_loop fn tau stepSize maxIteration tolerance (Suc iter) s2 x' valueNew)))"
          using True Inr q f by (intro "1.IH") simp_all
        with Inr q True m f show ?thesis
          by (subst (1 2) PGE_loop.simps) (auto simp: Let_def)
      qed
    qed
  qed
qed

text \<open>
  C10. \<open>ProjectedGradientEnhancement\<close> enters the body of its loop at most
  \<open>maxIteration - 1\<close> times; with \<open>maxIteration = 1\<close> that is at most once, and in fact
  never. (The difference is the truncated one of \<^typ>\<open>nat\<close>: with \<open>maxIteration = 0\<close>
  the body is never entered either.)
\<close>

theorem ProjectedGradientEnhancement_steps:
  "steps (ProjectedGradientEnhancement fn tau stepSize maxIteration tolerance s) \<le> maxIteration - 1
   \<and> steps (ProjectedGradientEnhancement fn tau stepSize 1 tolerance s) \<le> 1
   \<and> steps (ProjectedGradientEnhancement fn tau stepSize 1 tolerance s) = 0"
proof -
  have "steps (ProjectedGradientEnhancement fn tau stepSize m tolerance s) \<le> m - 1" for m
    using PGE_loop_facts [of fn tau stepSize m tolerance 1 s]
    by (auto simp: ProjectedGradientEnhancement_def split: sum.splits)
  from this [of maxIteration] this [of 1] show ?thesis by simp
qed

subsection \<open>Facts about the matrix product\<close>

lemma lincomb_length:
  "list_all (\<lambda>c. length c = n) cs \<Longrightarrow> length (lincomb n cs v) = n"
  by (induction n cs v rule: lincomb.induct) simp_all

lemma lincomb_nth:
  "list_all (\<lambda>c. length c = n) cs \<Longrightarrow> length v = length cs \<Longrightarrow> i < n \<Longrightarrow>
   lincomb n cs v ! i = (\<Sum>j<length cs. cs ! j ! i * v ! j)"
proof (induction cs arbitrary: v)
  case Nil
  then show ?case by simp
next
  case (Cons c cs)
  then obtain a as where v: "v = a # as" by (cases v) simp_all
  with Cons.prems have len: "length (lincomb n cs as) = n" "length c = n"
    by (simp_all add: lincomb_length)
  have "lincomb n (c # cs) v ! i = a * c ! i + lincomb n cs as ! i"
    using len Cons.prems(3) by (simp add: v)
  also have "lincomb n cs as ! i = (\<Sum>j<length cs. cs ! j ! i * as ! j)"
    using Cons.prems v by (intro Cons.IH) simp_all
  finally show ?case
    by (simp add: v sum.lessThan_Suc_shift mult.commute del: sum.lessThan_Suc)
qed

lemma lincomb_single: "lincomb (length v) [v] [c] = map ((*) c) v"
  by (simp add: map2_map_map [symmetric] zip_replicate2 map_idI del: map2_map_map)


text \<open>
  C9. \<open>RecoverVector\<close> returns the product of the atom matrix and the coefficient vector:
  entry \<open>i\<close> of the result is the sum over the atoms \<open>j\<close> of entry \<open>i\<close> of atom \<open>j\<close>
  times coefficient \<open>j\<close>. On a new object it returns the empty vector, and after
  \<open>AddAtom(v, c)\<close> on an empty set it returns \<open>c * v\<close>, entry by entry. The model of
  \<open>RecoverVector\<close> returns no state: the source assigns to its argument \<open>x\<close> only,
  taken here to be a variable of the caller and not a member of the object.
\<close>

theorem RecoverVector_product:
  "(wf_mat (currentAtoms s) \<and> coeffs_match s \<longrightarrow>
      (\<exists>x. RecoverVector s = Inr x \<and> length x = n_rows (currentAtoms s)
         \<and> (\<forall>i < n_rows (currentAtoms s).
               x ! i = (\<Sum>j < n_cols (currentAtoms s). cols (currentAtoms s) ! j ! i * currentCoeffs s ! j))))
   \<and> RecoverVector Atoms_new = Inr []
   \<and> (is_empty (currentAtoms s0) \<longrightarrow>
        (\<exists>s1. AddAtom \<lparr>n_rows = length v, cols = [v]\<rparr> c s0 = Inr s1
           \<and> RecoverVector s1 = Inr (map ((*) c) v)))"
proof (intro conjI impI)
  assume "wf_mat (currentAtoms s) \<and> coeffs_match s"
  then show "\<exists>x. RecoverVector s = Inr x \<and> length x = n_rows (currentAtoms s)
         \<and> (\<forall>i < n_rows (currentAtoms s).
               x ! i = (\<Sum>j < n_cols (currentAtoms s). cols (currentAtoms s) ! j ! i * currentCoeffs s ! j))"
    by (simp add: RecoverVector_def mat_vec_def wf_mat_def coeffs_match_def n_cols_def
        lincomb_length lincomb_nth)
next
  show "RecoverVector Atoms_new = Inr []"
    by (simp add: RecoverVector_def mat_vec_def Atoms_new_def n_cols_def)
next
  assume "is_empty (currentAtoms s0)"
  then show "\<exists>s1. AddAtom \<lparr>n_rows = length v, cols = [v]\<rparr> c s0 = Inr s1
           \<and> RecoverVector s1 = Inr (map ((*) c) v)"
    by (simp add: AddAtom_def RecoverVector_def mat_vec_def n_cols_def lincomb_single
        del: lincomb.simps)
qed

theorem RecoverVector_product_witness:
  "wf_mat (currentAtoms \<lparr>currentCoeffs = [4, 3], currentAtoms = \<lparr>n_rows = 2, cols = [[5, 6], [1, 2]]\<rparr>\<rparr>)
   \<and> coeffs_match \<lparr>currentCoeffs = [4, 3], currentAtoms = \<lparr>n_rows = 2, cols = [[5, 6], [1, 2]]\<rparr>\<rparr>
   \<and> RecoverVector \<lparr>currentCoeffs = [4, 3], currentAtoms = \<lparr>n_rows = 2, cols = [[5, 6], [1, 2]]\<rparr>\<rparr>
       = Inr [23, 30]
   \<and> is_empty (currentAtoms Atoms_new)
   \<and> (\<exists>s1. AddAtom \<lparr>n_rows = length [1, 2::real], cols = [[1, 2]]\<rparr> 3 Atoms_new = Inr s1
           \<and> RecoverVector s1 = Inr [3, 6])"
  using RecoverVector_product [of "\<lparr>currentCoeffs = [4, 3], currentAtoms = \<lparr>n_rows = 2, cols = [[5, 6], [1, 2]]\<rparr>\<rparr>"
      Atoms_new "[1, 2]" 3]
  by (simp add: wf_mat_def coeffs_match_def n_cols_def is_empty_def Atoms_new_def
      RecoverVector_def mat_vec_def eval_nat_numeral)

lemma AddAtom_result:
  assumes "coeffs_match s" "n_cols v = 1"
  shows "case AddAtom v c s of
           Inl e \<Rightarrow> e = IncompatibleDimensions \<and> \<not> is_empty (currentAtoms s)
                     \<and> n_rows v \<noteq> n_rows (currentAtoms s)
         | Inr s' \<Rightarrow> coeffs_match s'
             \<and> currentCoeffs s' = c # (if is_empty (currentAtoms s) then [] else currentCoeffs s)
             \<and> cols (currentAtoms s') = cols v @ (if is_empty (currentAtoms s) then [] else cols (currentAtoms s))"
  using assms
  by (auto simp: AddAtom_def insert_cols_def insert_rows_def coeffs_match_def n_cols_def
      is_empty_def split: sum.splits if_splits)

text \<open>
  C8. One coefficient per atom is an invariant. From a state where it holds: \<open>AddAtom\<close>
  of an atom (a matrix of one column) either fails on the number of rows, leaving the
  object as it was, or puts the new coefficient and the new column in front, of the old
  ones or, in the branch of the empty set, of nothing; \<open>PruneSupport\<close> and
  \<open>ProjectedGradientEnhancement\<close> leave a state where it holds, however they end.
\<close>

theorem coeffs_match_preserved:
  assumes "coeffs_match s"
  shows "(n_cols v = 1 \<longrightarrow>
          (case AddAtom v c s of
             Inl e \<Rightarrow> e = IncompatibleDimensions \<and> \<not> is_empty (currentAtoms s)
                       \<and> n_rows v \<noteq> n_rows (currentAtoms s)
           | Inr s' \<Rightarrow> coeffs_match s'
               \<and> currentCoeffs s' = c # (if is_empty (currentAtoms s) then [] else currentCoeffs s)
               \<and> cols (currentAtoms s') = cols v @ (if is_empty (currentAtoms s) then [] else cols (currentAtoms s))))
    \<and> coeffs_match (final (PruneSupport F fn solve s))
    \<and> coeffs_match (final (ProjectedGradientEnhancement fn' tau stepSize maxIteration tolerance s))"
proof (intro conjI impI)
  assume "n_cols v = 1"
  with assms show "case AddAtom v c s of
             Inl e \<Rightarrow> e = IncompatibleDimensions \<and> \<not> is_empty (currentAtoms s)
                       \<and> n_rows v \<noteq> n_rows (currentAtoms s)
           | Inr s' \<Rightarrow> coeffs_match s'
               \<and> currentCoeffs s' = c # (if is_empty (currentAtoms s) then [] else currentCoeffs s)
               \<and> cols (currentAtoms s') = cols v @ (if is_empty (currentAtoms s) then [] else cols (currentAtoms s))"
    by (rule AddAtom_result)
next
  have "prune_facts F fn s (PruneSupport F fn solve s)" by (rule PruneSupport_facts)
  with assms show "coeffs_match (final (PruneSupport F fn solve s))"
    by (auto simp: prune_facts_def split: if_splits)
next
  show "coeffs_match (final (ProjectedGradientEnhancement fn' tau stepSize maxIteration tolerance s))"
    using assms PGE_loop_facts [of fn' tau stepSize maxIteration tolerance 1 s]
    by (auto simp: ProjectedGradientEnhancement_def split: sum.splits)
qed

theorem coeffs_match_preserved_witness:
  "coeffs_match ex_two \<and> n_cols ex_an_atom = 1
   \<and> AddAtom ex_an_atom 3 ex_two
       = Inr \<lparr>currentCoeffs = [3, 0.5, 0.5], currentAtoms = \<lparr>n_rows = 1, cols = [[1], [1], [1]]\<rparr>\<rparr>
   \<and> coeffs_match \<lparr>currentCoeffs = [3, 0.5, 0.5], currentAtoms = \<lparr>n_rows = 1, cols = [[1], [1], [1]]\<rparr>\<rparr>
   \<and> coeffs_match (final (PruneSupport 0 ex_objective solve_small ex_two))
   \<and> coeffs_match (final (ProjectedGradientEnhancement ex_objective 1 0.1 3 0.001 ex_two))"
proof -
  have m: "coeffs_match ex_two"
    by (simp add: coeffs_match_def ex_two_def n_cols_def)
  have a: "AddAtom ex_an_atom 3 ex_two
       = Inr \<lparr>currentCoeffs = [3, 0.5, 0.5], currentAtoms = \<lparr>n_rows = 1, cols = [[1], [1], [1]]\<rparr>\<rparr>"
    by (simp add: AddAtom_def ex_two_def ex_an_atom_def is_empty_def n_cols_def insert_cols_def
        insert_rows_def)
  from coeffs_match_preserved [OF m, of ex_an_atom 3 0 ex_objective solve_small ex_objective 1 "0.1" 3 "0.001"]
    m a show ?thesis
    by (simp add: ex_an_atom_def n_cols_def coeffs_match_def)
qed

end
